theory Spec2Isabelle
  imports Complex_Main "HOL-Library.Monad_Syntax" "HOL-Library.Sublist"
begin

text \<open>
  A model of the Smith chart library \<open>GTKsmithChart.c\<close>: the transform from
  normalized impedance to the reflection-coefficient plane, the arc
  generator, the grid renderer, the label and ring layout, the curve fitter
  and the chart composer, each function under the name it has in the source,
  followed by the properties proved of them.
\<close>

section \<open>Numbers of the program\<close>

text \<open>
  A \<open>gdouble\<close> of the C source is either a finite number, one of the two
  infinities, or not-a-number. A finite double is modelled by the real number
  it denotes and arithmetic on finite values is exact: rounding, overflow to
  an infinity and the sign of zero are outside this model (a zero behaves as
  the positive zero). What the model keeps is the way the special values
  arise and spread: a division by zero yields an infinity or \<open>NaN\<close>, and
  every comparison with \<open>NaN\<close> is false.
\<close>

datatype gdouble = Fin real | PInf | NInf | NaN

fun inf_of_sign :: "real \<Rightarrow> gdouble" where
  "inf_of_sign s = (if 0 < s then PInf else if s < 0 then NInf else NaN)"

instantiation gdouble :: "{plus, uminus, minus, times, inverse, ord}"
begin

fun plus_gdouble :: "gdouble \<Rightarrow> gdouble \<Rightarrow> gdouble" where
  "plus_gdouble (Fin a) (Fin b) = Fin (a + b)"
| "plus_gdouble NaN _ = NaN"
| "plus_gdouble _ NaN = NaN"
| "plus_gdouble PInf NInf = NaN"
| "plus_gdouble NInf PInf = NaN"
| "plus_gdouble PInf _ = PInf"
| "plus_gdouble _ PInf = PInf"
| "plus_gdouble NInf _ = NInf"
| "plus_gdouble _ NInf = NInf"

fun uminus_gdouble :: "gdouble \<Rightarrow> gdouble" where
  "uminus_gdouble (Fin a) = Fin (- a)"
| "uminus_gdouble PInf = NInf"
| "uminus_gdouble NInf = PInf"
| "uminus_gdouble NaN = NaN"

definition minus_gdouble :: "gdouble \<Rightarrow> gdouble \<Rightarrow> gdouble" where
  "minus_gdouble a b = a + (- b)"

fun times_gdouble :: "gdouble \<Rightarrow> gdouble \<Rightarrow> gdouble" where
  "times_gdouble (Fin a) (Fin b) = Fin (a * b)"
| "times_gdouble NaN _ = NaN"
| "times_gdouble _ NaN = NaN"
| "times_gdouble PInf (Fin b) = inf_of_sign b"
| "times_gdouble (Fin a) PInf = inf_of_sign a"
| "times_gdouble NInf (Fin b) = inf_of_sign (- b)"
| "times_gdouble (Fin a) NInf = inf_of_sign (- a)"
| "times_gdouble PInf PInf = PInf"
| "times_gdouble NInf NInf = PInf"
| "times_gdouble PInf NInf = NInf"
| "times_gdouble NInf PInf = NInf"

fun divide_gdouble :: "gdouble \<Rightarrow> gdouble \<Rightarrow> gdouble" where
  "divide_gdouble (Fin a) (Fin b) = (if b = 0 then inf_of_sign a else Fin (a / b))"
| "divide_gdouble NaN _ = NaN"
| "divide_gdouble _ NaN = NaN"
| "divide_gdouble (Fin a) PInf = Fin 0"
| "divide_gdouble (Fin a) NInf = Fin 0"
| "divide_gdouble PInf (Fin b) = (if 0 \<le> b then PInf else NInf)"
| "divide_gdouble NInf (Fin b) = (if 0 \<le> b then NInf else PInf)"
| "divide_gdouble PInf PInf = NaN"
| "divide_gdouble PInf NInf = NaN"
| "divide_gdouble NInf PInf = NaN"
| "divide_gdouble NInf NInf = NaN"

definition inverse_gdouble :: "gdouble \<Rightarrow> gdouble" where
  "inverse_gdouble a = (Fin 1) div a"

fun less_eq_gdouble :: "gdouble \<Rightarrow> gdouble \<Rightarrow> bool" where
  "less_eq_gdouble (Fin a) (Fin b) = (a \<le> b)"
| "less_eq_gdouble NaN _ = False"
| "less_eq_gdouble _ NaN = False"
| "less_eq_gdouble NInf _ = True"
| "less_eq_gdouble _ PInf = True"
| "less_eq_gdouble _ _ = False"

fun less_gdouble :: "gdouble \<Rightarrow> gdouble \<Rightarrow> bool" where
  "less_gdouble (Fin a) (Fin b) = (a < b)"
| "less_gdouble NaN _ = False"
| "less_gdouble _ NaN = False"
| "less_gdouble PInf _ = False"
| "less_gdouble _ NInf = False"
| "less_gdouble _ _ = True"

instance ..

end

text \<open>The functions of the C mathematics library, on the same values.\<close>

fun c_sqrt :: "gdouble \<Rightarrow> gdouble" where
  "c_sqrt (Fin a) = (if a < 0 then NaN else Fin (sqrt a))"
| "c_sqrt PInf = PInf"
| "c_sqrt _ = NaN"

fun c_sin :: "gdouble \<Rightarrow> gdouble" where
  "c_sin (Fin a) = Fin (sin a)"
| "c_sin _ = NaN"

fun c_cos :: "gdouble \<Rightarrow> gdouble" where
  "c_cos (Fin a) = Fin (cos a)"
| "c_cos _ = NaN"

fun c_fabs :: "gdouble \<Rightarrow> gdouble" where
  "c_fabs (Fin a) = Fin \<bar>a\<bar>"
| "c_fabs PInf = PInf"
| "c_fabs NInf = PInf"
| "c_fabs NaN = NaN"

text \<open>\<open>pow (x, 2)\<close>, the only exponent the source uses.\<close>

fun c_pow2 :: "gdouble \<Rightarrow> gdouble" where
  "c_pow2 (Fin a) = Fin (a * a)"
| "c_pow2 PInf = PInf"
| "c_pow2 NInf = PInf"
| "c_pow2 NaN = NaN"

text \<open>
  \<open>atan2 (y, x)\<close>: the angle of the point \<open>(x, y)\<close>, in \<open>(-\<pi>, \<pi>]\<close>, with the
  values the C standard fixes on the axes and at the infinities.
\<close>

definition atan2_real :: "real \<Rightarrow> real \<Rightarrow> real" where
  "atan2_real y x =
     (if 0 < x then arctan (y / x)
      else if x < 0 then (if 0 \<le> y then arctan (y / x) + pi else arctan (y / x) - pi)
      else if 0 < y then pi / 2
      else if y < 0 then - (pi / 2)
      else 0)"

fun c_atan2 :: "gdouble \<Rightarrow> gdouble \<Rightarrow> gdouble" where
  "c_atan2 (Fin y) (Fin x) = Fin (atan2_real y x)"
| "c_atan2 NaN _ = NaN"
| "c_atan2 _ NaN = NaN"
| "c_atan2 (Fin y) PInf = Fin 0"
| "c_atan2 (Fin y) NInf = (if 0 \<le> y then Fin pi else Fin (- pi))"
| "c_atan2 PInf (Fin x) = Fin (pi / 2)"
| "c_atan2 NInf (Fin x) = Fin (- (pi / 2))"
| "c_atan2 PInf PInf = Fin (pi / 4)"
| "c_atan2 NInf PInf = Fin (- (pi / 4))"
| "c_atan2 PInf NInf = Fin (3 * pi / 4)"
| "c_atan2 NInf NInf = Fin (- (3 * pi / 4))"

definition M_PI :: gdouble where
  "M_PI = Fin pi"

text \<open>The macros \<open>SQU\<close> and \<open>DEGtoRAD\<close> of the header.\<close>

definition SQU :: "gdouble \<Rightarrow> gdouble" where
  "SQU x = x * x"

definition DEGtoRAD :: "gdouble \<Rightarrow> gdouble" where
  "DEGtoRAD x = x / Fin 180 * M_PI"

section \<open>Coordinate transform\<close>

record tUV =
  U :: gdouble
  V :: gdouble

record tRX =
  R :: gdouble
  X :: gdouble

text \<open>
  \<open>RXtoUV\<close>: Gamma = (Z - 1) / (Z + 1), with numerator and denominator
  multiplied by the conjugate of the denominator.
\<close>

definition RXtoUV :: "tRX \<Rightarrow> tUV" where
  "RXtoUV rx =
     (let Zplus1_magSqu = SQU (R rx) + SQU (X rx) + (R rx * Fin 2) + Fin 1
      in \<lparr> U = (SQU (R rx) + SQU (X rx) - Fin 1) / Zplus1_magSqu,
           V = X rx * Fin 2 / Zplus1_magSqu \<rparr>)"

definition angleR :: "tRX \<Rightarrow> gdouble" where
  "angleR rx =
     (let uv = RXtoUV rx
      in c_atan2 (V uv) (U uv - (R rx / (R rx + Fin 1))))"

definition angleX :: "tRX \<Rightarrow> gdouble" where
  "angleX rx =
     (let uv = RXtoUV rx
      in c_atan2 (V uv - Fin 1 / X rx) (U uv - Fin 1))"

section \<open>Data of the header\<close>

text \<open>
  A \<open>gint\<close> is a 32-bit signed integer, modelled by the integer it denotes.
  The counters of the source stay far below \<open>2\<^sup>3\<^sup>1\<close>; the index sums of the
  curve fitter do not when the point sequence is long, so they are computed
  with \<open>gint_add\<close> and \<open>gint_sub\<close>, which wrap around as the two's-complement
  machine does, and with \<open>gint_rem\<close>, the operator \<open>%\<close> of C, whose result has
  the sign of the dividend. \<open>of_gint\<close> is the conversion to \<open>gdouble\<close>.
\<close>

type_synonym gint = int

definition gint_wrap :: "int \<Rightarrow> gint" where
  "gint_wrap k = (k + 2147483648) mod 4294967296 - 2147483648"

definition gint_add :: "gint \<Rightarrow> gint \<Rightarrow> gint" where
  "gint_add a b = gint_wrap (a + b)"

definition gint_sub :: "gint \<Rightarrow> gint \<Rightarrow> gint" where
  "gint_sub a b = gint_wrap (a - b)"

definition gint_rem :: "gint \<Rightarrow> gint \<Rightarrow> gint" where
  "gint_rem a b = sgn a * (\<bar>a\<bar> mod \<bar>b\<bar>)"

definition of_gint :: "gint \<Rightarrow> gdouble" where
  "of_gint i = Fin (real_of_int i)"

record GdkRGBA =
  red :: gdouble
  green :: gdouble
  blue :: gdouble
  alpha :: gdouble

record cairo_matrix_t =
  xx :: gdouble
  yx :: gdouble
  xy :: gdouble
  yy :: gdouble
  x0 :: gdouble
  y0 :: gdouble

record tSmithFlags =
  bShowRX :: bool
  bShowGB :: bool
  bShowLabels :: bool
  bShowStrings :: bool
  bDrawRing :: bool
  bSparceGB :: bool

text \<open>
  \<open>annotationFont\<close> is a character pointer, \<open>None\<close> when it is \<open>NULL\<close>;
  \<open>annotationFontSize\<close> is declared \<open>gint\<close>.
\<close>

record tSmithOptions =
  flags :: tSmithFlags
  lineWidth :: gdouble
  pointWidth :: gdouble
  colorRXgrid :: GdkRGBA
  colorGBgrid :: GdkRGBA
  colorRXtext :: GdkRGBA
  colorGBtext :: GdkRGBA
  colorRing :: GdkRGBA
  colorLine :: GdkRGBA
  colorAnnotation :: GdkRGBA
  annotationFont :: "string option"
  annotationFontSize :: gint
  matrix :: cairo_matrix_t

record tLabel =
  "value" :: gdouble
  text' :: "string option"

record tRegion =
  region :: gdouble
  minorDiv :: gdouble
  minorPerMajorDiv :: gint

record tLine =
  A :: tUV
  B :: tUV

definition END :: gint where
  "END = - 1"

definition SPECIAL_CASE :: gint where
  "SPECIAL_CASE = 0"

definition LABEL_FONT :: string where
  "LABEL_FONT = ''Nimbus Sans''"

definition SMITH_RADIUS :: gdouble where
  "SMITH_RADIUS = Fin 1"

definition LABELFONTSIZE :: gdouble where
  "LABELFONTSIZE = SMITH_RADIUS / Fin 55"

definition STROKE_WIDTH_THIN :: gdouble where
  "STROKE_WIDTH_THIN = SMITH_RADIUS / Fin 2000"

definition STROKE_WIDTH_MINOR :: gdouble where
  "STROKE_WIDTH_MINOR = SMITH_RADIUS / Fin 1500"

definition STROKE_WIDTH_MAJOR :: gdouble where
  "STROKE_WIDTH_MAJOR = SMITH_RADIUS / Fin 500"

definition WAVE_RING_RADIUS :: gdouble where
  "WAVE_RING_RADIUS = Fin 1.115 * SMITH_RADIUS"

definition ANGLE_RING_RADIUS :: gdouble where
  "ANGLE_RING_RADIUS = Fin 1.038 * SMITH_RADIUS"

definition SRpct :: "gdouble \<Rightarrow> gdouble" where
  "SRpct x = SMITH_RADIUS / Fin 100 * x"

definition OUTER_BOUNDARY_WITH_RING :: gdouble where
  "OUTER_BOUNDARY_WITH_RING =
     WAVE_RING_RADIUS + ((WAVE_RING_RADIUS - ANGLE_RING_RADIUS) / Fin 2)"

definition LEFT_JUSTIFIED :: bool where
  "LEFT_JUSTIFIED = True"

definition RIGHT_JUSTIFIED :: bool where
  "RIGHT_JUSTIFIED = False"

section \<open>Static tables\<close>

definition rgba :: "real \<Rightarrow> real \<Rightarrow> real \<Rightarrow> real \<Rightarrow> GdkRGBA" where
  "rgba r g b a = \<lparr> red = Fin r, green = Fin g, blue = Fin b, alpha = Fin a \<rparr>"

definition zero_matrix :: cairo_matrix_t where
  "zero_matrix = \<lparr> xx = Fin 0, yx = Fin 0, xy = Fin 0, yy = Fin 0, x0 = Fin 0, y0 = Fin 0 \<rparr>"

text \<open>
  The initializer of the static \<open>defaultOptions\<close>. The members it does not
  name are zero: the font pointer is \<open>NULL\<close> and the matrix is all zero. The
  source writes \<open>.annotationFontSize = 0.4\<close> into a \<open>gint\<close> member, which the
  conversion truncates to 0.
\<close>

definition defaultOptions_init :: tSmithOptions where
  "defaultOptions_init =
     \<lparr> flags = \<lparr> bShowRX = True, bShowGB = False, bShowLabels = True,
                  bShowStrings = True, bDrawRing = True, bSparceGB = True \<rparr>,
       lineWidth = Fin 0.25,
       pointWidth = Fin 0.6,
       colorRXgrid = rgba 0.7 0.0 0.0 1.0,
       colorGBgrid = rgba 0.0 0.5 0.5 1.0,
       colorRXtext = rgba 0.5 0.0 0.0 1.0,
       colorGBtext = rgba 0.0 0.5 0.5 1.0,
       colorRing = rgba 0.0 0.0 0.0 1.0,
       colorLine = rgba 0.0 0.0 0.5 1.0,
       colorAnnotation = rgba 0.0 0.5 0.0 1.0,
       annotationFont = None,
       annotationFontSize = 0,
       matrix = zero_matrix \<rparr>"

definition label :: "real \<Rightarrow> string \<Rightarrow> tLabel" where
  "label v s = \<lparr> value = Fin v, text' = Some s \<rparr>"

definition labels :: "tLabel list" where
  "labels =
     [ label 0.0 ''0'', label 0.1 ''0.1'', label 0.2 ''0.2'', label 0.3 ''0.3'', label 0.4 ''0.4'',
       label 0.5 ''0.5'', label 0.6 ''0.6'', label 0.7 ''0.7'', label 0.8 ''0.8'', label 0.9 ''0.9'',
       label 1.0 ''1.0'', label 1.2 ''1.2'', label 1.4 ''1.4'', label 1.6 ''1.6'', label 1.8 ''1.8'',
       label 2.0 ''2.0'', label 3.0 ''3.0'', label 4.0 ''4.0'', label 5.0 ''5.0'',
       label 10.0 ''10'', label 20.0 ''20'', label 50.0 ''50'',
       \<lparr> value = Fin 0.0, text' = None \<rparr> ]"

definition zone :: "real \<Rightarrow> real \<Rightarrow> gint \<Rightarrow> tRegion" where
  "zone b d n = \<lparr> region = Fin b, minorDiv = Fin d, minorPerMajorDiv = n \<rparr>"

definition stdGrid :: "tRegion list" where
  "stdGrid =
     [ zone 0.0 0.01 5, zone 0.2 0.02 5, zone 0.5 0.05 2, zone 1.0 0.10 2,
       zone 2.0 0.20 5, zone 5.0 1.00 5, zone 10.0 2.00 5, zone 20.0 10.00 5,
       zone 50.0 0.00 END ]"

definition sparseGrid :: "tRegion list" where
  "sparseGrid =
     [ zone 0 0.1 5, zone 1 0.2 5, zone 2 0.5 2,
       zone 4 1.0 6, zone 10 5.0 2, zone 20 30.0 SPECIAL_CASE,
       zone 50 0.0 END ]"

section \<open>The drawing sink and the memory\<close>

text \<open>
  The cairo context is outside the program. It is modelled by what the
  program can observe of it: the primitive calls it has received, oldest
  first, and its answers to the two queries the source makes,
  \<open>cairo_get_matrix\<close> and \<open>cairo_text_extents\<close>, each a function of the calls
  received so far. Nothing is assumed about these answers.
\<close>

record cairo_text_extents_t =
  x_bearing :: gdouble
  y_bearing :: gdouble
  width :: gdouble
  height :: gdouble
  x_advance :: gdouble
  y_advance :: gdouble

datatype cairo_operator_t = CAIRO_OPERATOR_CLEAR | CAIRO_OPERATOR_OVER

datatype cairo_call =
    Save
  | Restore
  | Translate gdouble gdouble
  | Scale gdouble gdouble
  | Rotate gdouble
  | SetMatrix cairo_matrix_t
  | SetLineWidth gdouble
  | SetSourceRGBA gdouble gdouble gdouble gdouble
  | SetOperator cairo_operator_t
  | NewPath
  | ClosePath
  | MoveTo gdouble gdouble
  | LineTo gdouble gdouble
  | RelMoveTo gdouble gdouble
  | RelLineTo gdouble gdouble
  | CurveTo gdouble gdouble gdouble gdouble gdouble gdouble
  | Arc gdouble gdouble gdouble gdouble gdouble
  | ArcNegative gdouble gdouble gdouble gdouble gdouble
  | Rectangle gdouble gdouble gdouble gdouble
  | Stroke
  | StrokePreserve
  | Fill
  | SelectFontFace string
  | SetFontMatrix cairo_matrix_t
  | SetFontOptionsUnhinted
  | ShowText string

record cairo_t =
  calls :: "cairo_call list"
  get_matrix :: "cairo_call list \<Rightarrow> cairo_matrix_t"
  text_extents :: "cairo_call list \<Rightarrow> string \<Rightarrow> cairo_text_extents_t"

text \<open>
  The option structures live in memory, one at each address. The address
  \<open>defaultOptions\<close> is that of the static structure of the source; a pointer
  argument is \<open>NULL\<close> or an address.
\<close>

type_synonym addr = nat

datatype tSmithOptions_ptr = NULL | Ptr addr

definition defaultOptions :: addr where
  "defaultOptions = 0"

record world =
  cr :: cairo_t
  options :: "addr \<Rightarrow> tSmithOptions"

definition cairo :: "cairo_call \<Rightarrow> world \<Rightarrow> world" where
  "cairo c w = w \<lparr> cr := (cr w) \<lparr> calls := calls (cr w) @ [c] \<rparr> \<rparr>"

definition cairo_get_matrix :: "world \<Rightarrow> cairo_matrix_t" where
  "cairo_get_matrix w = get_matrix (cr w) (calls (cr w))"

definition cairo_text_extents :: "string \<Rightarrow> world \<Rightarrow> cairo_text_extents_t" where
  "cairo_text_extents s w = text_extents (cr w) (calls (cr w)) s"

abbreviation "cairo_save \<equiv> cairo Save"
abbreviation "cairo_restore \<equiv> cairo Restore"
abbreviation "cairo_translate tx ty \<equiv> cairo (Translate tx ty)"
abbreviation "cairo_scale sx sy \<equiv> cairo (Scale sx sy)"
abbreviation "cairo_rotate a \<equiv> cairo (Rotate a)"
abbreviation "cairo_set_matrix m \<equiv> cairo (SetMatrix m)"
abbreviation "cairo_set_line_width lw \<equiv> cairo (SetLineWidth lw)"
abbreviation "cairo_set_source_rgba r g b a \<equiv> cairo (SetSourceRGBA r g b a)"
abbreviation "cairo_set_operator op \<equiv> cairo (SetOperator op)"
abbreviation "cairo_new_path \<equiv> cairo NewPath"
abbreviation "cairo_close_path \<equiv> cairo ClosePath"
abbreviation "cairo_move_to x y \<equiv> cairo (MoveTo x y)"
abbreviation "cairo_line_to x y \<equiv> cairo (LineTo x y)"
abbreviation "cairo_rel_move_to x y \<equiv> cairo (RelMoveTo x y)"
abbreviation "cairo_rel_line_to x y \<equiv> cairo (RelLineTo x y)"
abbreviation "cairo_curve_to x1 y1 x2 y2 x3 y3 \<equiv> cairo (CurveTo x1 y1 x2 y2 x3 y3)"
abbreviation "cairo_arc xc yc r a1 a2 \<equiv> cairo (Arc xc yc r a1 a2)"
abbreviation "cairo_arc_negative xc yc r a1 a2 \<equiv> cairo (ArcNegative xc yc r a1 a2)"
abbreviation "cairo_rectangle x y w h \<equiv> cairo (Rectangle x y w h)"
abbreviation "cairo_stroke \<equiv> cairo Stroke"
abbreviation "cairo_stroke_preserve \<equiv> cairo StrokePreserve"
abbreviation "cairo_fill \<equiv> cairo Fill"
abbreviation "cairo_select_font_face f \<equiv> cairo (SelectFontFace f)"
abbreviation "cairo_set_font_matrix m \<equiv> cairo (SetFontMatrix m)"
abbreviation "cairo_show_text s \<equiv> cairo (ShowText s)"

text \<open>Statements in sequence: each one takes the world the previous one left.\<close>

definition seq :: "(world \<Rightarrow> world) list \<Rightarrow> world \<Rightarrow> world" where
  "seq fs w = fold (\<lambda>f. f) fs w"

text \<open>
  \<open>cairo_set_source_rgba\<close> applied to the four members of a colour, as the
  source writes it at every use.
\<close>

definition set_source_color :: "GdkRGBA \<Rightarrow> world \<Rightarrow> world" where
  "set_source_color c = cairo_set_source_rgba (red c) (green c) (blue c) (alpha c)"

section \<open>Text helpers\<close>

text \<open>
  \<open>removeFontHinting\<close> copies the context's font options, sets the hint
  style to none and the hint metrics off, and installs the copy: one call to
  the sink.
\<close>

definition removeFontHinting :: "world \<Rightarrow> world" where
  "removeFontHinting = cairo SetFontOptionsUnhinted"

definition stringWidthCairoText :: "string \<Rightarrow> world \<Rightarrow> gdouble" where
  "stringWidthCairoText sLabel w = x_advance (cairo_text_extents sLabel w)"

definition setCairoFontSize :: "gdouble \<Rightarrow> world \<Rightarrow> world" where
  "setCairoFontSize fSize =
     cairo_set_font_matrix
       \<lparr> xx = fSize, yx = Fin 0, xy = Fin 0, yy = - fSize, x0 = Fin 0, y0 = Fin 0 \<rparr>"

definition leftJustifiedClearText :: "string \<Rightarrow> gdouble \<Rightarrow> gdouble \<Rightarrow> world \<Rightarrow> world" where
  "leftJustifiedClearText sLabel x y w =
     (let extents = cairo_text_extents sLabel w
      in seq [ cairo_save,
               cairo_set_operator CAIRO_OPERATOR_CLEAR,
               cairo_new_path,
               cairo_rectangle x y (width extents + x_bearing extents)
                 (height extents + y_bearing extents),
               cairo_stroke_preserve,
               cairo_fill,
               cairo_restore,
               cairo_move_to x y,
               cairo_show_text sLabel ] w)"

definition rightJustifiedClearText :: "string \<Rightarrow> gdouble \<Rightarrow> gdouble \<Rightarrow> world \<Rightarrow> world" where
  "rightJustifiedClearText sLabel x y w =
     (let extents = cairo_text_extents sLabel w
      in seq [ cairo_save,
               cairo_set_operator CAIRO_OPERATOR_CLEAR,
               cairo_new_path,
               cairo_rectangle (x - (width extents + x_bearing extents)) y
                 (width extents + x_bearing extents)
                 (height extents + y_bearing extents),
               cairo_stroke_preserve,
               cairo_fill,
               cairo_restore,
               (\<lambda>w. cairo_move_to (x - stringWidthCairoText sLabel w) y w),
               cairo_show_text sLabel ] w)"

definition centreJustifiedCairoText :: "string \<Rightarrow> gdouble \<Rightarrow> gdouble \<Rightarrow> world \<Rightarrow> world" where
  "centreJustifiedCairoText sLabel x y =
     seq [ (\<lambda>w. cairo_move_to (x - stringWidthCairoText sLabel w / Fin 2) y w),
           cairo_show_text sLabel ]"

section \<open>Arc generator\<close>

definition drawArc :: "tUV \<Rightarrow> gdouble \<Rightarrow> gdouble \<Rightarrow> gdouble \<Rightarrow> world \<Rightarrow> world" where
  "drawArc uv radius angleStart angleEnd =
     seq [ cairo_arc (U uv * SMITH_RADIUS) (V uv * SMITH_RADIUS) (radius * SMITH_RADIUS)
             angleStart angleEnd,
           cairo_stroke ]"

definition drawRarc :: "gdouble \<Rightarrow> gdouble \<Rightarrow> gdouble \<Rightarrow> world \<Rightarrow> world" where
  "drawRarc rArc xFrom xTo =
     (let uv = \<lparr> U = rArc / (rArc + Fin 1), V = Fin 0 \<rparr>;
          radius = Fin 1 / (rArc + Fin 1);
          rx = \<lparr> R = rArc, X = xFrom \<rparr>;
          theta1 = angleR rx;
          rx = rx \<lparr> X := xTo \<rparr>;
          theta2 = angleR rx
      in drawArc uv radius theta1 theta2)"

definition drawXarc :: "gdouble \<Rightarrow> gdouble \<Rightarrow> gdouble \<Rightarrow> world \<Rightarrow> world" where
  "drawXarc xArc rFrom rTo =
     (let uv = \<lparr> U = Fin 1, V = Fin 1 / xArc \<rparr>;
          radius = c_fabs (V uv);
          rx = \<lparr> R = rFrom, X = xArc \<rparr>;
          theta1 = angleX rx;
          rx = rx \<lparr> R := rTo \<rparr>;
          theta2 = angleX rx
      in drawArc uv radius theta1 theta2)"

section \<open>Grid renderer\<close>

text \<open>
  The two loops of \<open>drawBlock\<close> have the shape
  \<open>for (v = first; v <= bound; v += inc, ticks++) body\<close> on a \<open>gdouble\<close>
  counter. Such a loop need not end (an increment of zero never reaches the
  bound), so it is a partial function: \<open>None\<close> is the run that does not
  return, or whose body has no defined result.
\<close>

partial_function (option) for_gdouble ::
  "(gdouble \<Rightarrow> gint \<Rightarrow> world \<Rightarrow> world option) \<Rightarrow> gdouble \<Rightarrow> gdouble
     \<Rightarrow> gdouble \<Rightarrow> gint \<Rightarrow> world \<Rightarrow> world option" where
  "for_gdouble body bound inc v ticks w =
     (if v \<le> bound
      then Option.bind (body v ticks w) (for_gdouble body bound inc (v + inc) (ticks + 1))
      else Some w)"

text \<open>
  The stroke weight of a tick. The remainder \<open>ticks % minorPerMajor\<close> has no
  defined result when \<open>minorPerMajor\<close> is zero.
\<close>

definition tick_line_width :: "gint \<Rightarrow> gint \<Rightarrow> world \<Rightarrow> world option" where
  "tick_line_width ticks minorPerMajor w =
     (if minorPerMajor = 0 then None
      else if ticks mod minorPerMajor = 0
        then Some (cairo_set_line_width STROKE_WIDTH_MAJOR w)
        else Some (cairo_set_line_width STROKE_WIDTH_MINOR w))"

definition drawBlock :: "tRX \<Rightarrow> tRX \<Rightarrow> gdouble \<Rightarrow> gint \<Rightarrow> world \<Rightarrow> world option" where
  "drawBlock RXstart RXend minorInc minorPerMajor w =
     do {
       w \<leftarrow> for_gdouble
              (\<lambda>r rticks w. do {
                 w \<leftarrow> tick_line_width rticks minorPerMajor w;
                 Some (seq [ drawRarc r (X RXend) (X RXstart),
                             drawRarc r (- X RXstart) (- X RXend) ] w) })
              (R RXend + minorInc / Fin 2) minorInc (R RXstart + minorInc) 1 w;
       for_gdouble
         (\<lambda>x xticks w. do {
            w \<leftarrow> tick_line_width xticks minorPerMajor w;
            Some (seq [ drawXarc x (R RXstart) (R RXend),
                        drawXarc (- x) (R RXend) (R RXstart) ] w) })
         (X RXend + minorInc / Fin 2) minorInc (X RXstart + minorInc) 1 w
     }"

text \<open>
  The \<open>zones\<close> argument of \<open>drawImmittanceGrid\<close> is a pointer to the first
  element of an array. The source compares it with the address of
  \<open>sparseGrid\<close>, so the model tells the two static tables from any other
  array.
\<close>

datatype tRegion_array = stdGrid_array | sparseGrid_array | other_array "tRegion list"

fun elements :: "tRegion_array \<Rightarrow> tRegion list" where
  "elements stdGrid_array = stdGrid"
| "elements sparseGrid_array = sparseGrid"
| "elements (other_array zs) = zs"

text \<open>
  The body of the loop over the zones, at one index. It reads
  \<open>zones[index]\<close> and, outside the special case, \<open>zones[index + 1]\<close>; a read
  past the end of the array has no defined result.
\<close>

definition drawZone :: "tRegion list \<Rightarrow> nat \<Rightarrow> world \<Rightarrow> world option" where
  "drawZone zones index w =
     (let minorinc = minorDiv (zones ! index);
          minorPerMajor = minorPerMajorDiv (zones ! index)
      in if minorPerMajor = SPECIAL_CASE
         then Some (seq [ cairo_set_line_width STROKE_WIDTH_MAJOR,
                          drawRarc (Fin 20) (Fin 50) (Fin 20),
                          drawRarc (Fin 20) (Fin (- 20)) (Fin (- 50)),
                          drawXarc (Fin 20) (Fin 20) (Fin 50),
                          drawXarc (Fin (- 20)) (Fin 50) (Fin 20) ] w)
         else if length zones \<le> index + 1 then None
         else do {
           let rxFrom = \<lparr> R = Fin 0, X = region (zones ! index) \<rparr>;
           let rxTo = \<lparr> R = region (zones ! (index + 1)), X = region (zones ! (index + 1)) \<rparr>;
           w \<leftarrow> drawBlock rxFrom rxTo minorinc minorPerMajor w;
           let rxFrom = \<lparr> R = region (zones ! index), X = Fin 0 \<rparr>;
           let rxTo = \<lparr> R = region (zones ! (index + 1)), X = region (zones ! index) \<rparr>;
           let minorPerMajor = (if index = 7 then 3 else minorPerMajor);
           drawBlock rxFrom rxTo minorinc minorPerMajor w
         })"

function drawZones :: "tRegion list \<Rightarrow> nat \<Rightarrow> world \<Rightarrow> world option" where
  "drawZones zones index w =
     (if length zones \<le> index then None
      else if minorPerMajorDiv (zones ! index) = END then Some w
      else Option.bind (drawZone zones index w) (\<lambda>w. drawZones zones (index + 1) w))"
  by pat_completeness auto
termination
  by (relation "measure (\<lambda>(zones, index, w). length zones - index)") auto

definition drawImmittanceGrid ::
  "tRegion_array \<Rightarrow> addr \<Rightarrow> world \<Rightarrow> world option" where
  "drawImmittanceGrid zones pOptions w =
     do {
       w \<leftarrow> drawZones (elements zones) 0 w;
       Some (seq [ cairo_set_line_width STROKE_WIDTH_MAJOR,
                   cairo_move_to (- SMITH_RADIUS) (Fin 0),
                   cairo_line_to SMITH_RADIUS (Fin 0),
                   cairo_stroke,
                   cairo_arc (Fin 0) (Fin 0) SMITH_RADIUS (Fin 0) (Fin 2 * M_PI),
                   cairo_stroke,
                   drawRarc (Fin 50) (Fin 10000) (Fin 0),
                   drawRarc (Fin 50) (Fin 0) (Fin (- 10000)),
                   drawXarc (Fin 50) (Fin 0) (Fin 10000),
                   drawXarc (Fin (- 50)) (Fin 10000) (Fin 0),
                   (if zones = sparseGrid_array
                    then seq [ drawRarc (Fin 10) (Fin 10) (Fin 0),
                               drawRarc (Fin 10) (Fin 0) (Fin (- 10)),
                               drawXarc (Fin 4) (Fin 4) (Fin 10),
                               drawXarc (Fin (- 4)) (Fin 10) (Fin 4) ]
                    else seq []),
                   cairo_new_path,
                   cairo_set_operator CAIRO_OPERATOR_CLEAR,
                   cairo_arc (Fin 0) (Fin 0) (SMITH_RADIUS / Fin 150) (Fin 0) (Fin 2 * M_PI),
                   cairo_fill,
                   cairo_set_operator CAIRO_OPERATOR_OVER,
                   cairo_set_line_width STROKE_WIDTH_THIN,
                   cairo_arc (Fin 0) (Fin 0) (SMITH_RADIUS / Fin 150) (Fin 0) (Fin 2 * M_PI),
                   cairo_stroke,
                   cairo_arc (Fin 0) (Fin 0) (SMITH_RADIUS / Fin 800) (Fin 0) (Fin 2 * M_PI),
                   cairo_stroke ] w)
     }"

text \<open>A counted loop whose body leaves the counter alone runs once per value.\<close>

definition foreach :: "'a list \<Rightarrow> ('a \<Rightarrow> world \<Rightarrow> world) \<Rightarrow> world \<Rightarrow> world" where
  "foreach xs body w = fold body xs w"

section \<open>Label layout\<close>

text \<open>
  \<open>circleCairoText\<close> writes a string along an arc, one character at a time;
  \<open>circleChar\<close> is the body of its loop over the characters.
\<close>

definition circleChar :: "gdouble \<Rightarrow> char \<Rightarrow> world \<Rightarrow> world" where
  "circleChar radius c w =
     (let sChar = [c];
          extents = cairo_text_extents sChar w
      in seq [ cairo_rotate (- (x_advance extents / Fin 2) / radius),
               cairo_move_to (- (x_advance extents / Fin 2)) radius,
               cairo_show_text sChar,
               cairo_rotate (- (x_advance extents / Fin 2) / radius) ] w)"

definition circleCairoText ::
  "string \<Rightarrow> gdouble \<Rightarrow> gdouble \<Rightarrow> gdouble \<Rightarrow> gdouble \<Rightarrow> world \<Rightarrow> world" where
  "circleCairoText sLabel radius angle centerX centerY w =
     (let extents = cairo_text_extents sLabel w;
          sweepAngle = x_advance extents / radius
      in seq [ cairo_save,
               cairo_new_path,
               cairo_set_line_width (Fin 0),
               cairo_set_operator CAIRO_OPERATOR_CLEAR,
               cairo_translate centerX centerY,
               cairo_rotate (angle - sweepAngle / Fin 2),
               cairo_arc_negative centerX centerY (radius + y_bearing extents) sweepAngle (Fin 0),
               cairo_rel_line_to (height extents) (Fin 0),
               cairo_arc centerX centerY (radius + height extents) (Fin 0) sweepAngle,
               cairo_close_path,
               cairo_stroke_preserve,
               cairo_fill,
               cairo_set_operator CAIRO_OPERATOR_OVER,
               cairo_rotate (sweepAngle - M_PI / Fin 2),
               foreach sLabel (circleChar radius),
               cairo_restore ] w)"

text \<open>
  The text of a table entry. The entries the loops visit all have one; a
  \<open>NULL\<close> string would reach the sink as the empty string.
\<close>

definition text_of :: "tLabel \<Rightarrow> string" where
  "text_of l = (case text' l of Some s \<Rightarrow> s | None \<Rightarrow> [])"

text \<open>The bodies of the two loops of \<open>drawLabels\<close>, at one table entry.\<close>

definition drawLabel_rim :: "gdouble \<Rightarrow> tLabel \<Rightarrow> world \<Rightarrow> world" where
  "drawLabel_rim labelMargin l =
     (let rx = \<lparr> R = Fin 0, X = value l \<rparr>;
          uv = RXtoUV rx;
          angle1 = c_atan2 (V uv) (U uv);
          rx = \<lparr> R = Fin 0, X = - value l \<rparr>;
          uv = RXtoUV rx;
          angle2 = c_atan2 (V uv) (U uv) + M_PI;
          rx = \<lparr> R = value l, X = Fin 0 \<rparr>;
          uv3 = RXtoUV rx
      in seq [ cairo_save,
               cairo_rotate angle1,
               rightJustifiedClearText (text_of l) (SMITH_RADIUS - labelMargin) (Fin 0 + labelMargin),
               cairo_restore,
               cairo_save,
               cairo_rotate angle2,
               leftJustifiedClearText (text_of l) (- SMITH_RADIUS + labelMargin) (Fin 0 + labelMargin),
               cairo_restore,
               cairo_save,
               cairo_rotate (M_PI / Fin 2),
               leftJustifiedClearText (text_of l) labelMargin (- U uv3 + labelMargin),
               cairo_restore ])"

definition drawLabel_unit :: "gdouble \<Rightarrow> tLabel \<Rightarrow> world \<Rightarrow> world" where
  "drawLabel_unit labelMargin l =
     (let rx1 = \<lparr> R = value l, X = Fin 1 \<rparr>;
          uv1 = RXtoUV rx1;
          rx2 = \<lparr> R = value l, X = Fin (- 1) \<rparr>;
          uv2 = RXtoUV rx2;
          rx3 = \<lparr> R = Fin 1, X = value l \<rparr>;
          uv3 = RXtoUV rx3;
          rx4 = \<lparr> R = Fin 1, X = - value l \<rparr>;
          uv4 = RXtoUV rx4
      in seq [ cairo_save,
               cairo_translate (U uv1 * SMITH_RADIUS) (V uv1 * SMITH_RADIUS),
               cairo_rotate (angleX rx1 + M_PI),
               leftJustifiedClearText (text_of l) labelMargin labelMargin,
               cairo_restore,
               cairo_save,
               cairo_translate (U uv2 * SMITH_RADIUS) (V uv2 * SMITH_RADIUS),
               cairo_rotate (angleX rx2),
               rightJustifiedClearText (text_of l) (- labelMargin) labelMargin,
               cairo_restore,
               cairo_save,
               cairo_translate (U uv3 * SMITH_RADIUS) (V uv3 * SMITH_RADIUS),
               cairo_rotate (angleR rx3),
               rightJustifiedClearText (text_of l) (- labelMargin) labelMargin,
               cairo_restore,
               cairo_save,
               cairo_translate (U uv4 * SMITH_RADIUS) (V uv4 * SMITH_RADIUS),
               cairo_rotate (angleR rx4 + M_PI),
               leftJustifiedClearText (text_of l) labelMargin labelMargin,
               cairo_restore ])"

text \<open>
  The first loop starts at index 1 and stops at the first entry whose text is
  \<open>NULL\<close>, which the static table has as its last entry; the second visits
  the indices 2, 4, 6, 8 and 10.
\<close>

definition drawLabels :: "addr \<Rightarrow> world \<Rightarrow> world" where
  "drawLabels pOptions =
     (let labelMargin = LABELFONTSIZE / Fin 4
      in seq [ cairo_select_font_face LABEL_FONT,
               setCairoFontSize LABELFONTSIZE,
               foreach (takeWhile (\<lambda>l. text' l \<noteq> None) (drop 1 labels))
                 (drawLabel_rim labelMargin),
               foreach (map (\<lambda>index. labels ! index) [2, 4, 6, 8, 10])
                 (drawLabel_unit labelMargin) ])"

definition drawRXgrid :: "tRegion_array \<Rightarrow> addr \<Rightarrow> world \<Rightarrow> world option" where
  "drawRXgrid areas pOptions w =
     do {
       let w = seq [ cairo_save,
                     (\<lambda>w. set_source_color (colorRXgrid (options w pOptions)) w) ] w;
       w \<leftarrow> drawImmittanceGrid areas pOptions w;
       Some (cairo_restore w)
     }"

definition drawRXgridText :: "tRegion_array \<Rightarrow> addr \<Rightarrow> world \<Rightarrow> world" where
  "drawRXgridText areas pOptions =
     seq [ cairo_save,
           (\<lambda>w. set_source_color (colorRXtext (options w pOptions)) w),
           cairo_set_line_width (Fin 0),
           (\<lambda>w. if bShowLabels (flags (options w pOptions)) then drawLabels pOptions w else w),
           (\<lambda>w. if bShowStrings (flags (options w pOptions))
                then (let resistanceTextVpos = - (LABELFONTSIZE + SRpct (Fin 0.8));
                          resistanceTextVpos =
                            (if bShowGB (flags (options w pOptions))
                             then resistanceTextVpos - (LABELFONTSIZE + SRpct (Fin 0.4))
                             else resistanceTextVpos)
                      in seq [ circleCairoText ''INDUCTIVE REACTANCE COMPONENT (+jX/Zo)''
                                 (SRpct (Fin 94)) (DEGtoRAD (Fin 141.7)) (Fin 0) (Fin 0),
                               circleCairoText ''CAPACITIVE REACTANCE COMPONENT (-jX/Zo)''
                                 (SRpct (Fin 94)) (DEGtoRAD (Fin (- 141.7))) (Fin 0) (Fin 0),
                               leftJustifiedClearText ''RESISTANCE COMPONENT (R/Zo)''
                                 (SRpct (Fin (- 32.5))) resistanceTextVpos ] w)
                else w),
           cairo_restore ]"

definition drawGBgrid :: "tRegion_array \<Rightarrow> addr \<Rightarrow> world \<Rightarrow> world option" where
  "drawGBgrid areas pOptions w =
     do {
       let w = seq [ cairo_save,
                     (\<lambda>w. set_source_color (colorGBgrid (options w pOptions)) w),
                     cairo_rotate M_PI ] w;
       w \<leftarrow> drawImmittanceGrid areas pOptions w;
       Some (cairo_restore w)
     }"

definition drawGBgridText :: "tRegion_array \<Rightarrow> addr \<Rightarrow> world \<Rightarrow> world" where
  "drawGBgridText areas pOptions =
     seq [ cairo_save,
           cairo_rotate M_PI,
           (\<lambda>w. set_source_color (colorGBtext (options w pOptions)) w),
           cairo_set_line_width (Fin 0),
           (\<lambda>w. if bShowLabels (flags (options w pOptions)) then drawLabels pOptions w else w),
           (\<lambda>w. if bShowStrings (flags (options w pOptions))
                then (let reactanceTextAngle = Fin 141.7;
                          coductanceTextVpos = SRpct (Fin 0.8);
                          w = cairo_rotate (- M_PI) w;
                          reactanceTextAngle =
                            (if bShowRX (flags (options w pOptions))
                             then reactanceTextAngle - Fin 27 else reactanceTextAngle);
                          coductanceTextVpos =
                            (if bShowRX (flags (options w pOptions))
                             then coductanceTextVpos + (LABELFONTSIZE + SRpct (Fin 0.4))
                             else coductanceTextVpos)
                      in seq [ circleCairoText ''CAPACITIVE SUSCEPTANCE COMPONENT (+jX/Yo)''
                                 (SRpct (Fin 94)) (DEGtoRAD reactanceTextAngle) (Fin 0) (Fin 0),
                               circleCairoText ''INDUCTIVE SUSCEPTANCE COMPONENT (-jB/Yo)''
                                 (SRpct (Fin 94)) (DEGtoRAD (- reactanceTextAngle)) (Fin 0) (Fin 0),
                               leftJustifiedClearText ''CONDUCTANCE COMPONENT (G/Yo)''
                                 (SRpct (Fin (- 32.5))) (coductanceTextVpos + SRpct (Fin 0.8)) ] w)
                else w),
           cairo_restore ]"

section \<open>Ring annotator\<close>

text \<open>
  The conversions \<open>%d\<close> and \<open>%.2f\<close> of the C library, which the rings use for
  their numbers.
\<close>

fun digits :: "nat \<Rightarrow> string" where
  "digits n =
     (if n < 10 then [char_of (48 + n)]
      else digits (n div 10) @ [char_of (48 + n mod 10)])"

definition printf_d :: "gint \<Rightarrow> string" where
  "printf_d i = (if i < 0 then ''-'' @ digits (nat (- i)) else digits (nat i))"

fun printf_2f :: "gdouble \<Rightarrow> string" where
  "printf_2f (Fin a) =
     (let n = nat (round (\<bar>a\<bar> * 100))
      in (if a < 0 then ''-'' else '''') @ digits (n div 100) @ ''.''
           @ [char_of (48 + n div 10 mod 10), char_of (48 + n mod 10)])"
| "printf_2f PInf = ''inf''"
| "printf_2f NInf = ''-inf''"
| "printf_2f NaN = ''nan''"

definition drawCurvedArrow :: "gdouble \<Rightarrow> gdouble \<Rightarrow> gdouble \<Rightarrow> world \<Rightarrow> world" where
  "drawCurvedArrow radius startAngle stopAngle =
     (let bCW = (stopAngle < startAngle)
      in seq [ cairo_save,
               cairo_new_path,
               cairo_set_line_width (SRpct (Fin 0.2)),
               (if bCW
                then cairo_arc_negative (Fin 0) (Fin 0) radius startAngle stopAngle
                else cairo_arc (Fin 0) (Fin 0) radius startAngle stopAngle),
               cairo_stroke,
               cairo_rotate stopAngle,
               cairo_set_line_width (Fin 0),
               cairo_new_path,
               cairo_move_to radius (Fin 0),
               cairo_rel_line_to (SRpct (Fin 0.7)) (SRpct (if bCW then Fin 2 else Fin (- 2))),
               cairo_rel_line_to (SRpct (Fin (- 0.7))) (SRpct (if bCW then Fin (- 0.8) else Fin 0.8)),
               cairo_rel_line_to (SRpct (Fin (- 0.7))) (SRpct (if bCW then Fin 0.8 else Fin (- 0.8))),
               cairo_close_path,
               cairo_fill,
               cairo_restore ])"

text \<open>The body of the loop of \<open>drawWavelengthRing\<close>, for one tick.\<close>

definition wavelengthTick :: "gdouble \<Rightarrow> gint \<Rightarrow> world \<Rightarrow> world" where
  "wavelengthTick lstep ix =
     seq [ cairo_save,
           cairo_rotate (of_gint ix * lstep),
           cairo_move_to (- (WAVE_RING_RADIUS + SRpct (Fin 0.8))) (Fin 0),
           cairo_rel_line_to (SRpct (Fin 1.6)) (Fin 0),
           cairo_stroke,
           cairo_restore,
           (if ix mod 5 = 0 \<and> 16 < ix
            then (let sWaveNumber =
                        printf_2f (if ix \<noteq> 250 then of_gint ix / Fin 500 else Fin 0)
                  in seq [ cairo_save,
                           cairo_rotate (of_gint ix * lstep),
                           cairo_translate
                             (- (WAVE_RING_RADIUS - SRpct (Fin 1.25) - LABELFONTSIZE)) (Fin 0),
                           cairo_rotate (M_PI / Fin 2),
                           centreJustifiedCairoText sWaveNumber (Fin 0) (Fin 0),
                           cairo_restore,
                           cairo_save,
                           cairo_rotate (of_gint (- ix) * lstep),
                           cairo_translate (- (WAVE_RING_RADIUS + SRpct (Fin 1.5))) (Fin 0),
                           cairo_rotate (M_PI / Fin 2),
                           centreJustifiedCairoText sWaveNumber (Fin 0) (Fin 0),
                           cairo_restore ])
            else seq []) ]"

definition drawWavelengthRing :: "addr \<Rightarrow> world \<Rightarrow> world" where
  "drawWavelengthRing pOptions =
     seq [ cairo_save,
           cairo_set_line_width STROKE_WIDTH_MINOR,
           cairo_select_font_face LABEL_FONT,
           setCairoFontSize LABELFONTSIZE,
           cairo_new_path,
           cairo_arc (Fin 0) (Fin 0) WAVE_RING_RADIUS (Fin 0) (Fin 2 * M_PI),
           cairo_stroke,
           foreach [1..250] (wavelengthTick (M_PI / Fin 125)),
           circleCairoText ''WAVELENGTHS TOWARD GENERATOR''
             (WAVE_RING_RADIUS + SRpct (Fin 1.25)) (DEGtoRAD (Fin 165.6)) (Fin 0) (Fin 0),
           circleCairoText ''WAVELENGTHS TOWARD LOAD''
             (WAVE_RING_RADIUS - SRpct (Fin 3)) (DEGtoRAD (Fin (- 165.5))) (Fin 0) (Fin 0),
           drawCurvedArrow (WAVE_RING_RADIUS + SRpct (Fin 2.0))
             (DEGtoRAD (Fin 178.2)) (DEGtoRAD (Fin 174.9)),
           drawCurvedArrow (WAVE_RING_RADIUS + SRpct (Fin 2.0))
             (DEGtoRAD (Fin 156.3)) (DEGtoRAD (Fin 153.0)),
           drawCurvedArrow (WAVE_RING_RADIUS - SRpct (Fin 2.1))
             (DEGtoRAD (Fin (- 176.8))) (DEGtoRAD (Fin (- 173.6))),
           drawCurvedArrow (WAVE_RING_RADIUS - SRpct (Fin 2.1))
             (DEGtoRAD (Fin (- 157.5))) (DEGtoRAD (Fin (- 154.2))),
           cairo_new_path,
           cairo_set_line_width STROKE_WIDTH_MINOR,
           cairo_arc (Fin 0) (Fin 0) OUTER_BOUNDARY_WITH_RING (Fin 0) (Fin 2 * M_PI),
           cairo_stroke,
           cairo_restore ]"

definition printNormalToRadial :: "gdouble \<Rightarrow> gdouble \<Rightarrow> string \<Rightarrow> world \<Rightarrow> world" where
  "printNormalToRadial radialAngle radialDistance sLabel =
     seq [ cairo_save,
           cairo_rotate radialAngle,
           cairo_translate radialDistance (Fin 0),
           cairo_rotate (- M_PI / Fin 2),
           centreJustifiedCairoText sLabel (Fin 0) (Fin 0),
           cairo_restore ]"

definition findTCradial :: "gdouble \<Rightarrow> gdouble \<Rightarrow> gdouble \<Rightarrow> gdouble" where
  "findTCradial angleDegrees unitRadius coeffRadiuus =
     (let angleRadians = DEGtoRAD angleDegrees;
          inter = c_sin angleRadians * unitRadius / coeffRadiuus;
          inter = c_atan2 (inter / c_sqrt (Fin 1 - (inter * inter))) (Fin 1)
      in c_sin (M_PI - angleRadians - inter) * coeffRadiuus / c_sin angleRadians)"

text \<open>The body of the loop over the transmission-coefficient ticks, for one degree.\<close>

definition angleTick :: "gint \<Rightarrow> world \<Rightarrow> world" where
  "angleTick deg =
     (let TCradial = findTCradial (of_gint deg) SMITH_RADIUS ANGLE_RING_RADIUS
      in seq [ cairo_save,
               cairo_rotate (DEGtoRAD (of_gint deg)),
               cairo_move_to TCradial (Fin 0),
               cairo_rel_line_to (SRpct (if deg \<le> 55 then Fin (- 1.5) else Fin (- 2.0))) (Fin 0),
               cairo_stroke,
               (if 10 \<le> deg \<and> deg mod 5 = 0
                then (let sstr = printf_d deg
                      in seq [ cairo_move_to (TCradial - SRpct (Fin 0.85)) (Fin 0),
                               (\<lambda>w. cairo_rel_move_to
                                  (- stringWidthCairoText sstr w
                                     - (LABELFONTSIZE * of_gint deg / Fin 90))
                                  (- LABELFONTSIZE
                                     * (if deg \<le> 45 then Fin 0.33 else of_gint deg / Fin 90)) w),
                               cairo_show_text sstr ])
                else seq []),
               cairo_restore,
               cairo_save,
               cairo_rotate (M_PI - DEGtoRAD (of_gint deg)),
               cairo_move_to (- TCradial) (Fin 0),
               cairo_rel_line_to (SRpct (if deg \<le> 55 then Fin 1.5 else Fin 2.0)) (Fin 0),
               cairo_stroke,
               (if 10 \<le> deg \<and> deg mod 5 = 0
                then seq [ cairo_move_to
                             (- TCradial + LABELFONTSIZE / (if deg < 45 then Fin 3 else Fin 2))
                             (- LABELFONTSIZE
                                * (if deg \<le> 45 then Fin 0.5 else of_gint deg / Fin 90)),
                           cairo_show_text (printf_d (- deg)) ]
                else seq []),
               cairo_restore ])"

definition drawAngleRing :: "addr \<Rightarrow> world \<Rightarrow> world" where
  "drawAngleRing pOptions =
     seq [ cairo_save,
           cairo_set_line_width STROKE_WIDTH_MINOR,
           cairo_new_path,
           cairo_arc (Fin 0) (Fin 0) ANGLE_RING_RADIUS (Fin 0) (Fin 2 * M_PI),
           cairo_arc (Fin 0) (Fin 0) (ANGLE_RING_RADIUS + SRpct (Fin 3.5)) (Fin 0) (Fin 2 * M_PI),
           cairo_stroke,
           cairo_save,
           foreach [deg \<leftarrow> [0..178]. deg mod 2 = 0]
             (\<lambda>deg. seq [ cairo_move_to (- ANGLE_RING_RADIUS) (Fin 0),
                         cairo_rel_line_to (SRpct (Fin (- 1.5))) (Fin 0),
                         cairo_stroke,
                         cairo_move_to ANGLE_RING_RADIUS (Fin 0),
                         cairo_rel_line_to (SRpct (Fin 1.5)) (Fin 0),
                         cairo_stroke,
                         cairo_rotate (DEGtoRAD (Fin 2)) ]),
           cairo_restore,
           foreach [deg \<leftarrow> [20..170]. deg mod 10 = 0]
             (\<lambda>deg. seq [ printNormalToRadial (DEGtoRAD (of_gint deg))
                           (ANGLE_RING_RADIUS + SRpct (Fin 1)) (printf_d deg),
                         printNormalToRadial (DEGtoRAD (of_gint (- deg)))
                           (ANGLE_RING_RADIUS + SRpct (Fin 1)) (printf_d (- deg)) ]),
           printNormalToRadial (DEGtoRAD (Fin 180)) (ANGLE_RING_RADIUS + SRpct (Fin 1))
             ([char_of (0xC2 :: nat), char_of (0xB1 :: nat)] @ ''180''),
           cairo_save,
           cairo_translate (- SMITH_RADIUS) (Fin 0),
           foreach (rev [1..90]) angleTick,
           cairo_restore,
           cairo_restore,
           circleCairoText ''ANGLE OF REFLECTION COEFFICIENT IN DEGREES''
             (ANGLE_RING_RADIUS + SRpct (Fin 1)) (DEGtoRAD (Fin 0)) (Fin 0) (Fin 0),
           circleCairoText ''ANGLE OF TRANSMISSION COEFFICIENT IN DEGREES''
             (ANGLE_RING_RADIUS - SRpct (Fin 2.7)) (DEGtoRAD (Fin 0)) (Fin 0) (Fin 0) ]"

section \<open>Lines, curves, points and annotations\<close>

text \<open>
  Every public entry point starts with
  \<open>if (pOptions == NULL) pOptions = &defaultOptions;\<close>.
\<close>

fun or_default :: "tSmithOptions_ptr \<Rightarrow> addr" where
  "or_default NULL = defaultOptions"
| "or_default (Ptr a) = a"

definition drawLineOnSmithChart ::
  "tUV \<Rightarrow> tUV \<Rightarrow> tSmithOptions_ptr \<Rightarrow> world \<Rightarrow> world" where
  "drawLineOnSmithChart uvFrom uvTo pOptions =
     (let pOptions = or_default pOptions
      in seq [ cairo_save,
               (\<lambda>w. cairo_set_matrix (matrix (options w pOptions)) w),
               (\<lambda>w. cairo_set_line_width (SRpct (lineWidth (options w pOptions))) w),
               (\<lambda>w. set_source_color (colorLine (options w pOptions)) w),
               cairo_new_path,
               cairo_move_to (U uvFrom) (V uvFrom),
               cairo_line_to (U uvTo) (V uvTo),
               cairo_stroke,
               cairo_restore ])"

definition CURVE_F :: gdouble where
  "CURVE_F = Fin 0.25"

text \<open>The macro \<open>angle\<close> local to \<open>bezierControlPoints\<close>.\<close>

definition angle :: "tLine \<Rightarrow> gdouble" where
  "angle x = c_atan2 (V (B x) - V (A x)) (U (B x) - U (A x))"

text \<open>
  \<open>bezierControlPoints\<close> writes its two results through the pointers \<open>p1\<close>
  and \<open>p2\<close>; the model returns them as a pair.
\<close>

definition bezierControlPoints :: "tLine \<Rightarrow> tLine \<Rightarrow> tUV \<times> tUV" where
  "bezierControlPoints g l =
     (let f = CURVE_F;
          lgt = c_sqrt (c_pow2 (U (B g) - U (A l)) + c_pow2 (V (B g) - V (A l)));
          h = \<lparr> A = \<lparr> U = U (B g) - lgt * c_cos (angle g),
                       V = V (B g) - lgt * c_sin (angle g) \<rparr>,
                B = A l \<rparr>;
          a = angle h;
          p1 = \<lparr> U = U (B g) + lgt * c_cos a * f,
                 V = V (B g) + lgt * c_sin a * f \<rparr>;
          h = \<lparr> A = B g,
                B = \<lparr> U = U (A l) + lgt * c_cos (angle l),
                       V = V (A l) + lgt * c_sin (angle l) \<rparr> \<rparr>;
          a = angle h;
          p2 = \<lparr> U = U (A l) - lgt * c_cos a * f,
                 V = V (A l) - lgt * c_sin a * f \<rparr>
      in (p1, p2))"

text \<open>
  A point array is passed as a pointer with a separate count. Reading an
  element outside the array has no defined result.
\<close>

definition element :: "tUV list \<Rightarrow> gint \<Rightarrow> tUV option" where
  "element uvPoints k =
     (if 0 \<le> k \<and> k < int (length uvPoints) then Some (uvPoints ! nat k) else None)"

primrec foreach_opt ::
  "'a list \<Rightarrow> ('a \<Rightarrow> world \<Rightarrow> world option) \<Rightarrow> world \<Rightarrow> world option" where
  "foreach_opt [] body w = Some w"
| "foreach_opt (x # xs) body w = Option.bind (body x w) (foreach_opt xs body)"

text \<open>The body of the loop of \<open>drawBezierCurveOnSmithChart\<close>, for one segment.\<close>

definition bezierSegment :: "tUV list \<Rightarrow> gint \<Rightarrow> gint \<Rightarrow> world \<Rightarrow> world option" where
  "bezierSegment uvPoints length' i w =
     do {
       gA \<leftarrow> element uvPoints (gint_rem (gint_sub (gint_add i length') 2) length');
       gB \<leftarrow> element uvPoints (gint_rem (gint_sub (gint_add i length') 1) length');
       lA \<leftarrow> element uvPoints (gint_rem (gint_add (gint_add i length') 0) length');
       lB \<leftarrow> element uvPoints (gint_rem (gint_add (gint_add i length') 1) length');
       let g = \<lparr> A = gA, B = gB \<rparr>;
       let l = \<lparr> A = lA, B = lB \<rparr>;
       let (c1, c2) = bezierControlPoints g l;
       let c1 = (if i = 1 then B g else c1);
       let c2 = (if i = length' - 1 then A l else c2);
       p \<leftarrow> element uvPoints i;
       Some (cairo_curve_to (U c1) (V c1) (U c2) (V c2) (U p) (V p) w)
     }"

definition drawBezierCurveOnSmithChart ::
  "tUV list \<Rightarrow> gint \<Rightarrow> tSmithOptions_ptr \<Rightarrow> world \<Rightarrow> world option" where
  "drawBezierCurveOnSmithChart uvPoints length' pOptions w =
     (let pOptions = or_default pOptions
      in do {
        let w = seq [ cairo_save,
                      (\<lambda>w. cairo_set_matrix (matrix (options w pOptions)) w),
                      (\<lambda>w. cairo_set_line_width (SRpct (lineWidth (options w pOptions))) w),
                      (\<lambda>w. set_source_color (colorLine (options w pOptions)) w),
                      cairo_new_path ] w;
        p0 \<leftarrow> element uvPoints 0;
        let w = cairo_move_to (U p0) (V p0) w;
        w \<leftarrow> foreach_opt [1..length' - 1] (bezierSegment uvPoints length') w;
        Some (seq [ cairo_stroke, cairo_restore ] w)
      })"

definition drawLineArrayOnSmithChart ::
  "tUV list \<Rightarrow> gint \<Rightarrow> tSmithOptions_ptr \<Rightarrow> world \<Rightarrow> world option" where
  "drawLineArrayOnSmithChart uvPoints length' pOptions w =
     (let pOptions = or_default pOptions
      in do {
        let w = seq [ cairo_save,
                      (\<lambda>w. cairo_set_matrix (matrix (options w pOptions)) w),
                      (\<lambda>w. cairo_set_line_width (SRpct (lineWidth (options w pOptions))) w),
                      (\<lambda>w. set_source_color (colorLine (options w pOptions)) w),
                      cairo_new_path ] w;
        w \<leftarrow> foreach_opt [0..length' - 1]
               (\<lambda>i w. if i = 0
                  then do { p \<leftarrow> element uvPoints 0; Some (cairo_move_to (U p) (V p) w) }
                  else do { p \<leftarrow> element uvPoints i; Some (cairo_line_to (U p) (V p) w) }) w;
        Some (seq [ cairo_stroke, cairo_restore ] w)
      })"

definition drawPointOnSmithChart :: "tUV \<Rightarrow> tSmithOptions_ptr \<Rightarrow> world \<Rightarrow> world" where
  "drawPointOnSmithChart uvPoint pOptions =
     (let pOptions = or_default pOptions
      in seq [ cairo_save,
               (\<lambda>w. cairo_set_matrix (matrix (options w pOptions)) w),
               cairo_set_line_width (Fin 0),
               (\<lambda>w. set_source_color (colorLine (options w pOptions)) w),
               cairo_new_path,
               (\<lambda>w. cairo_arc (U uvPoint) (V uvPoint) (SRpct (pointWidth (options w pOptions)))
                       (Fin 0) (Fin 2 * M_PI) w),
               cairo_fill,
               cairo_stroke,
               cairo_restore ])"

definition annotatePointOnSmithChart ::
  "string \<Rightarrow> tUV \<Rightarrow> bool \<Rightarrow> tSmithOptions_ptr \<Rightarrow> world \<Rightarrow> world" where
  "annotatePointOnSmithChart sLabel uv bLeft pOptions =
     (let pOptions = or_default pOptions
      in seq [ cairo_save,
               (\<lambda>w. cairo_set_matrix (matrix (options w pOptions)) w),
               cairo_set_line_width (Fin 0),
               (\<lambda>w. set_source_color (colorAnnotation (options w pOptions)) w),
               (\<lambda>w. cairo_select_font_face
                       (case annotationFont (options w pOptions) of
                          Some font \<Rightarrow> font | None \<Rightarrow> LABEL_FONT) w),
               (\<lambda>w. let fontSize =
                           (if annotationFontSize (options w pOptions) \<noteq> 0
                            then of_gint (annotationFontSize (options w pOptions)) / Fin 100
                                   * SMITH_RADIUS
                            else Fin 2 * LABELFONTSIZE)
                     in seq [ setCairoFontSize fontSize,
                              (if bLeft
                               then leftJustifiedClearText sLabel
                                      (U uv + (fontSize * Fin 0.5)) (V uv - (fontSize * Fin 0.3))
                               else rightJustifiedClearText sLabel
                                      (U uv - (fontSize * Fin 0.5)) (V uv - (fontSize * Fin 0.3))) ] w),
               cairo_restore ])"

section \<open>Chart composer\<close>

definition drawSmithChart ::
  "gdouble \<Rightarrow> gdouble \<Rightarrow> gdouble \<Rightarrow> tSmithOptions_ptr \<Rightarrow> world \<Rightarrow> world option" where
  "drawSmithChart centerX centerY radius pOptions w =
     (let pOptions = or_default pOptions;
          radius = (if bDrawRing (flags (options w pOptions))
                    then radius / (OUTER_BOUNDARY_WITH_RING / SMITH_RADIUS) else radius)
      in do {
        let w = seq [ cairo_save,
                      removeFontHinting,
                      cairo_translate centerX centerY,
                      cairo_scale radius (- radius),
                      cairo_select_font_face LABEL_FONT,
                      setCairoFontSize LABELFONTSIZE ] w;
        w \<leftarrow> (if bShowGB (flags (options w pOptions))
              then drawGBgrid (if bSparceGB (flags (options w pOptions))
                               then sparseGrid_array else stdGrid_array) pOptions w
              else Some w);
        w \<leftarrow> (if bShowRX (flags (options w pOptions))
              then drawRXgrid stdGrid_array pOptions w
              else Some w);
        let w = (if bShowRX (flags (options w pOptions))
                 then drawRXgridText stdGrid_array pOptions w else w);
        let w = (if bShowGB (flags (options w pOptions))
                 then drawGBgridText (if bSparceGB (flags (options w pOptions))
                                      then sparseGrid_array else stdGrid_array) pOptions w
                 else w);
        let w = (if bDrawRing (flags (options w pOptions))
                 then seq [ (\<lambda>w. set_source_color (colorRing (options w pOptions)) w),
                            drawWavelengthRing pOptions,
                            drawAngleRing pOptions ] w
                 else w);
        let w = w \<lparr> options := (options w)
                      (pOptions := (options w pOptions) \<lparr> matrix := cairo_get_matrix w \<rparr>) \<rparr>;
        Some (cairo_restore w)
      })"

section \<open>A reference curve fitter\<close>

text \<open>
  The reference against which the curve fitter is compared: the same
  construction, with the neighbour indices \<open>i - 2\<close> and \<open>i + 1\<close> clamped to
  the range of the point sequence instead of wrapped around modulo its
  length.
\<close>

definition clamp_index :: "gint \<Rightarrow> gint \<Rightarrow> gint" where
  "clamp_index length' k = max 0 (min (length' - 1) k)"

definition bezierSegment_clamped ::
  "tUV list \<Rightarrow> gint \<Rightarrow> gint \<Rightarrow> world \<Rightarrow> world option" where
  "bezierSegment_clamped uvPoints length' i w =
     do {
       gA \<leftarrow> element uvPoints (clamp_index length' (i - 2));
       gB \<leftarrow> element uvPoints (i - 1);
       lA \<leftarrow> element uvPoints i;
       lB \<leftarrow> element uvPoints (clamp_index length' (i + 1));
       let g = \<lparr> A = gA, B = gB \<rparr>;
       let l = \<lparr> A = lA, B = lB \<rparr>;
       let (c1, c2) = bezierControlPoints g l;
       let c1 = (if i = 1 then B g else c1);
       let c2 = (if i = length' - 1 then A l else c2);
       p \<leftarrow> element uvPoints i;
       Some (cairo_curve_to (U c1) (V c1) (U c2) (V c2) (U p) (V p) w)
     }"

definition drawBezierCurve_clamped ::
  "tUV list \<Rightarrow> gint \<Rightarrow> tSmithOptions_ptr \<Rightarrow> world \<Rightarrow> world option" where
  "drawBezierCurve_clamped uvPoints length' pOptions w =
     (let pOptions = or_default pOptions
      in do {
        let w = seq [ cairo_save,
                      (\<lambda>w. cairo_set_matrix (matrix (options w pOptions)) w),
                      (\<lambda>w. cairo_set_line_width (SRpct (lineWidth (options w pOptions))) w),
                      (\<lambda>w. set_source_color (colorLine (options w pOptions)) w),
                      cairo_new_path ] w;
        p0 \<leftarrow> element uvPoints 0;
        let w = cairo_move_to (U p0) (V p0) w;
        w \<leftarrow> foreach_opt [1..length' - 1] (bezierSegment_clamped uvPoints length') w;
        Some (seq [ cairo_stroke, cairo_restore ] w)
      })"

section \<open>An observation and a start state\<close>

text \<open>The stroke widths a sequence of calls sets, in order.\<close>

fun line_widths :: "cairo_call list \<Rightarrow> gdouble list" where
  "line_widths [] = []"
| "line_widths (SetLineWidth lw # cs) = lw # line_widths cs"
| "line_widths (_ # cs) = line_widths cs"

text \<open>
  A world to run the program in: a sink that has received no call and answers
  every query with zeros, and a memory whose structures all hold the
  initializer of \<open>defaultOptions\<close>.
\<close>

definition zero_extents :: cairo_text_extents_t where
  "zero_extents =
     \<lparr> x_bearing = Fin 0, y_bearing = Fin 0, width = Fin 0, height = Fin 0,
       x_advance = Fin 0, y_advance = Fin 0 \<rparr>"

definition initial_world :: world where
  "initial_world =
     \<lparr> cr = \<lparr> calls = [], get_matrix = (\<lambda>_. zero_matrix),
              text_extents = (\<lambda>_ _. zero_extents) \<rparr>,
       options = (\<lambda>_. defaultOptions_init) \<rparr>"

section \<open>Properties of the coordinate transform\<close>

lemma Zplus1_zero_iff: "(r::real)\<^sup>2 + x\<^sup>2 + 2 * r + 1 = 0 \<longleftrightarrow> r = - 1 \<and> x = 0"
proof -
  have eq: "r\<^sup>2 + x\<^sup>2 + 2 * r + 1 = (r + 1)\<^sup>2 + x\<^sup>2"
    by (simp add: power2_eq_square algebra_simps)
  have "(r + 1)\<^sup>2 + x\<^sup>2 = 0 \<longleftrightarrow> r + 1 = 0 \<and> x = 0"
    by (rule sum_power2_eq_zero_iff)
  also have "\<dots> \<longleftrightarrow> r = - 1 \<and> x = 0"
    by linarith
  finally show ?thesis
    by (simp only: eq)
qed

lemma RXtoUV_Fin:
  "RXtoUV \<lparr>R = Fin r, X = Fin x\<rparr> =
     (if r\<^sup>2 + x\<^sup>2 + 2 * r + 1 = 0 then \<lparr>U = inf_of_sign (r\<^sup>2 + x\<^sup>2 - 1), V = inf_of_sign (x * 2)\<rparr>
      else \<lparr>U = Fin ((r\<^sup>2 + x\<^sup>2 - 1) / (r\<^sup>2 + x\<^sup>2 + 2 * r + 1)),
            V = Fin (2 * x / (r\<^sup>2 + x\<^sup>2 + 2 * r + 1))\<rparr>)"
  by (simp add: RXtoUV_def SQU_def minus_gdouble_def power2_eq_square Let_def algebra_simps)

lemma RXtoUV_magSqu:
  fixes r x :: real
  assumes "r\<^sup>2 + x\<^sup>2 + 2 * r + 1 \<noteq> 0"
  shows "((r\<^sup>2 + x\<^sup>2 - 1) / (r\<^sup>2 + x\<^sup>2 + 2 * r + 1))\<^sup>2 + (2 * x / (r\<^sup>2 + x\<^sup>2 + 2 * r + 1))\<^sup>2
           = 1 - 4 * r / (r\<^sup>2 + x\<^sup>2 + 2 * r + 1)"
proof -
  define D where "D = r\<^sup>2 + x\<^sup>2 + 2 * r + 1"
  have D: "D \<noteq> 0" using assms by (simp add: D_def)
  have num: "(r\<^sup>2 + x\<^sup>2 - 1)\<^sup>2 + (2 * x)\<^sup>2 = D * (D - 4 * r)"
    by (simp add: D_def power2_eq_square algebra_simps)
  have "((r\<^sup>2 + x\<^sup>2 - 1) / D)\<^sup>2 + (2 * x / D)\<^sup>2 = ((r\<^sup>2 + x\<^sup>2 - 1)\<^sup>2 + (2 * x)\<^sup>2) / D\<^sup>2"
    by (simp add: power_divide add_divide_distrib)
  also have "\<dots> = D * (D - 4 * r) / D\<^sup>2"
    by (simp only: num)
  also have "\<dots> = (D - 4 * r) / D"
    using D by (simp add: power2_eq_square)
  also have "\<dots> = 1 - 4 * r / D"
    using D by (simp add: diff_divide_distrib)
  finally show ?thesis
    by (simp only: D_def)
qed

lemma Zplus1_pos:
  fixes r x :: real
  assumes "\<not> (r = - 1 \<and> x = 0)"
  shows "0 < r\<^sup>2 + x\<^sup>2 + 2 * r + 1"
proof -
  have "r\<^sup>2 + x\<^sup>2 + 2 * r + 1 = (r + 1)\<^sup>2 + x\<^sup>2"
    by (simp add: power2_eq_square algebra_simps)
  moreover have "0 \<le> (r + 1)\<^sup>2 + x\<^sup>2" by simp
  moreover have "r\<^sup>2 + x\<^sup>2 + 2 * r + 1 \<noteq> 0"
    using assms Zplus1_zero_iff [of r x] by blast
  ultimately show ?thesis by linarith
qed

lemma cos_atan2_real:
  assumes "x \<noteq> 0 \<or> y \<noteq> 0"
  shows "cos (atan2_real y x) = x / sqrt (x\<^sup>2 + y\<^sup>2)"
proof -
  have pos: "0 < x \<Longrightarrow> cos (arctan (y / x)) = x / sqrt (x\<^sup>2 + y\<^sup>2)" 
  proof -
    assume x: "0 < x"
    have "1 + (y / x)\<^sup>2 = (x\<^sup>2 + y\<^sup>2) / x\<^sup>2" using x by (simp add: field_simps)
    then have "sqrt (1 + (y / x)\<^sup>2) = sqrt (x\<^sup>2 + y\<^sup>2) / x" using x by (simp add: real_sqrt_divide)
    then show ?thesis by (simp add: cos_arctan)
  qed
  have neg: "x < 0 \<Longrightarrow> cos (arctan (y / x)) = - x / sqrt (x\<^sup>2 + y\<^sup>2)" 
  proof -
    assume x: "x < 0"
    have "1 + (y / x)\<^sup>2 = (x\<^sup>2 + y\<^sup>2) / x\<^sup>2" using x by (simp add: field_simps)
    then have "sqrt (1 + (y / x)\<^sup>2) = sqrt (x\<^sup>2 + y\<^sup>2) / (- x)" using x by (simp add: real_sqrt_divide)
    then show ?thesis by (simp add: cos_arctan)
  qed
  show ?thesis
    using assms pos neg by (auto simp: atan2_real_def)
qed

lemma sin_atan2_real:
  assumes "x \<noteq> 0 \<or> y \<noteq> 0"
  shows "sin (atan2_real y x) = y / sqrt (x\<^sup>2 + y\<^sup>2)"
proof -
  have pos: "0 < x \<Longrightarrow> sin (arctan (y / x)) = y / sqrt (x\<^sup>2 + y\<^sup>2)" 
  proof -
    assume x: "0 < x"
    have "1 + (y / x)\<^sup>2 = (x\<^sup>2 + y\<^sup>2) / x\<^sup>2" using x by (simp add: field_simps)
    then have "sqrt (1 + (y / x)\<^sup>2) = sqrt (x\<^sup>2 + y\<^sup>2) / x" using x by (simp add: real_sqrt_divide)
    then show ?thesis using x by (simp add: sin_arctan)
  qed
  have neg: "x < 0 \<Longrightarrow> sin (arctan (y / x)) = - y / sqrt (x\<^sup>2 + y\<^sup>2)" 
  proof -
    assume x: "x < 0"
    have "1 + (y / x)\<^sup>2 = (x\<^sup>2 + y\<^sup>2) / x\<^sup>2" using x by (simp add: field_simps)
    then have "sqrt (1 + (y / x)\<^sup>2) = sqrt (x\<^sup>2 + y\<^sup>2) / (- x)" using x by (simp add: real_sqrt_divide)
    then show ?thesis using x by (simp add: sin_arctan)
  qed
  show ?thesis
    using assms pos neg by (auto simp: atan2_real_def)
qed

text \<open>
  Claim C1. On a finite normalized impedance \<open>(r, x)\<close> whose denominator
  \<open>D = r\<^sup>2 + x\<^sup>2 + 2 r + 1\<close> is not zero, \<open>RXtoUV\<close> returns
  \<open>U = (r\<^sup>2 + x\<^sup>2 - 1) / D\<close> and \<open>V = 2 x / D\<close>. The matched load \<open>(1, 0)\<close> goes
  to the centre \<open>(0, 0)\<close> and the short circuit \<open>(0, 0)\<close> to the left pole
  \<open>(-1, 0)\<close>. The denominator vanishes exactly at \<open>r = -1\<close>, \<open>x = 0\<close>, and that is
  the only finite input on which the result is not a pair of finite numbers:
  there both coordinates are \<open>NaN\<close>.
\<close>

theorem RXtoUV_formula:
  fixes r x :: real
  shows "(r\<^sup>2 + x\<^sup>2 + 2 * r + 1 \<noteq> 0 \<longrightarrow>
            RXtoUV \<lparr>R = Fin r, X = Fin x\<rparr> =
              \<lparr>U = Fin ((r\<^sup>2 + x\<^sup>2 - 1) / (r\<^sup>2 + x\<^sup>2 + 2 * r + 1)),
               V = Fin (2 * x / (r\<^sup>2 + x\<^sup>2 + 2 * r + 1))\<rparr>)
       \<and> RXtoUV \<lparr>R = Fin 1, X = Fin 0\<rparr> = \<lparr>U = Fin 0, V = Fin 0\<rparr>
       \<and> RXtoUV \<lparr>R = Fin 0, X = Fin 0\<rparr> = \<lparr>U = Fin (- 1), V = Fin 0\<rparr>
       \<and> (r\<^sup>2 + x\<^sup>2 + 2 * r + 1 = 0 \<longleftrightarrow> r = - 1 \<and> x = 0)
       \<and> ((\<exists>u v. RXtoUV \<lparr>R = Fin r, X = Fin x\<rparr> = \<lparr>U = Fin u, V = Fin v\<rparr>)
             \<longleftrightarrow> \<not> (r = - 1 \<and> x = 0))
       \<and> RXtoUV \<lparr>R = Fin (- 1), X = Fin 0\<rparr> = \<lparr>U = NaN, V = NaN\<rparr>"
proof (intro conjI)
  show "r\<^sup>2 + x\<^sup>2 + 2 * r + 1 \<noteq> 0 \<longrightarrow>
            RXtoUV \<lparr>R = Fin r, X = Fin x\<rparr> =
              \<lparr>U = Fin ((r\<^sup>2 + x\<^sup>2 - 1) / (r\<^sup>2 + x\<^sup>2 + 2 * r + 1)),
               V = Fin (2 * x / (r\<^sup>2 + x\<^sup>2 + 2 * r + 1))\<rparr>"
    by (simp add: RXtoUV_Fin)
  show "RXtoUV \<lparr>R = Fin 1, X = Fin 0\<rparr> = \<lparr>U = Fin 0, V = Fin 0\<rparr>"
    by (simp add: RXtoUV_Fin)
  show "RXtoUV \<lparr>R = Fin 0, X = Fin 0\<rparr> = \<lparr>U = Fin (- 1), V = Fin 0\<rparr>"
    by (simp add: RXtoUV_Fin)
  show "r\<^sup>2 + x\<^sup>2 + 2 * r + 1 = 0 \<longleftrightarrow> r = - 1 \<and> x = 0"
    by (rule Zplus1_zero_iff)
  show "(\<exists>u v. RXtoUV \<lparr>R = Fin r, X = Fin x\<rparr> = \<lparr>U = Fin u, V = Fin v\<rparr>)
             \<longleftrightarrow> \<not> (r = - 1 \<and> x = 0)"
  proof (cases "r\<^sup>2 + x\<^sup>2 + 2 * r + 1 = 0")
    case True
    then have rx: "r = - 1" "x = 0" using Zplus1_zero_iff by auto
    show ?thesis unfolding rx by (simp add: RXtoUV_Fin)
  next
    case False
    then show ?thesis using Zplus1_zero_iff [of r x] by (simp add: RXtoUV_Fin)
  qed
  show "RXtoUV \<lparr>R = Fin (- 1), X = Fin 0\<rparr> = \<lparr>U = NaN, V = NaN\<rparr>"
    by (simp add: RXtoUV_Fin)
qed

theorem RXtoUV_formula_witness:
  "(2::real)\<^sup>2 + 1\<^sup>2 + 2 * 2 + 1 \<noteq> 0 \<and>
   RXtoUV \<lparr>R = Fin 2, X = Fin 1\<rparr> = \<lparr>U = Fin (2 / 5), V = Fin (1 / 5)\<rparr>"
  using RXtoUV_formula [of 2 1] by simp

text \<open>
  Claim C2, as amended. For every finite \<open>(r, x)\<close> with \<open>0 \<le> r\<close> the point
  returned by \<open>RXtoUV\<close> satisfies \<open>U\<^sup>2 + V\<^sup>2 \<le> 1\<close>, with equality exactly when
  \<open>r = 0\<close> and a strict inequality when \<open>0 < r\<close>.
\<close>

theorem RXtoUV_magnitude:
  fixes r x :: real
  assumes "0 \<le> r"
  shows "\<exists>u v. RXtoUV \<lparr>R = Fin r, X = Fin x\<rparr> = \<lparr>U = Fin u, V = Fin v\<rparr>
            \<and> u\<^sup>2 + v\<^sup>2 \<le> 1 \<and> (u\<^sup>2 + v\<^sup>2 = 1 \<longleftrightarrow> r = 0) \<and> (0 < r \<longrightarrow> u\<^sup>2 + v\<^sup>2 < 1)"
proof -
  define D where "D = r\<^sup>2 + x\<^sup>2 + 2 * r + 1"
  have Dpos: "0 < D"
    unfolding D_def using assms by (intro Zplus1_pos) auto
  define u where "u = (r\<^sup>2 + x\<^sup>2 - 1) / D"
  define v where "v = 2 * x / D"
  have uv: "RXtoUV \<lparr>R = Fin r, X = Fin x\<rparr> = \<lparr>U = Fin u, V = Fin v\<rparr>"
    using Dpos by (simp add: RXtoUV_Fin u_def v_def D_def)
  have mag: "u\<^sup>2 + v\<^sup>2 = 1 - 4 * r / D"
    unfolding u_def v_def D_def by (rule RXtoUV_magSqu) (use Dpos in \<open>simp add: D_def\<close>)
  have q: "0 \<le> 4 * r / D" using assms Dpos by simp
  have q0: "4 * r / D = 0 \<longleftrightarrow> r = 0" using Dpos by simp
  have qpos: "0 < r \<Longrightarrow> 0 < 4 * r / D" using Dpos by simp
  have "u\<^sup>2 + v\<^sup>2 \<le> 1" using mag q by linarith
  moreover have "u\<^sup>2 + v\<^sup>2 = 1 \<longleftrightarrow> r = 0" using mag q0 by linarith
  moreover have "0 < r \<longrightarrow> u\<^sup>2 + v\<^sup>2 < 1" using mag qpos by auto
  ultimately show ?thesis using uv by blast
qed

theorem RXtoUV_magnitude_witness:
  "(0::real) \<le> 1 \<and> (\<exists>u v. RXtoUV \<lparr>R = Fin 1, X = Fin 0\<rparr> = \<lparr>U = Fin u, V = Fin v\<rparr> \<and> u\<^sup>2 + v\<^sup>2 < 1)"
  using RXtoUV_magnitude [of 1 0] by auto

text \<open>
  The bound does not hold on all of \<open>-1 < r\<close>: at \<open>r = -1/2\<close>, \<open>x = 0\<close> the
  transform returns \<open>(-3, 0)\<close>, of squared magnitude 9.
\<close>

theorem RXtoUV_magnitude_counterexample:
  "- 1 < (- (1 / 2) :: real)
   \<and> RXtoUV \<lparr>R = Fin (- (1 / 2)), X = Fin 0\<rparr> = \<lparr>U = Fin (- 3), V = Fin 0\<rparr>
   \<and> (- 3 :: real)\<^sup>2 + 0\<^sup>2 = 9"
  by (simp add: RXtoUV_Fin power2_eq_square)

section \<open>Properties of the arc generator\<close>

lemma RXtoUV_alt:
  fixes r x :: real
  assumes D: "r\<^sup>2 + x\<^sup>2 + 2 * r + 1 \<noteq> 0"
  shows "(r\<^sup>2 + x\<^sup>2 - 1) / (r\<^sup>2 + x\<^sup>2 + 2 * r + 1)
           = 1 - 2 * (r + 1) * (1 / (r\<^sup>2 + x\<^sup>2 + 2 * r + 1))"
proof -
  define D where "D = r\<^sup>2 + x\<^sup>2 + 2 * r + 1"
  have D0: "D \<noteq> 0" using D by (simp add: D_def)
  have "r\<^sup>2 + x\<^sup>2 - 1 = D - 2 * (r + 1)" by (simp add: D_def)
  then have "(r\<^sup>2 + x\<^sup>2 - 1) / D = (D - 2 * (r + 1)) / D" by simp
  also have "\<dots> = D / D - 2 * (r + 1) / D" by (rule diff_divide_distrib)
  also have "\<dots> = 1 - 2 * (r + 1) * (1 / D)" using D0 by simp
  finally show ?thesis by (simp only: D_def)
qed

lemma R_circle:
  fixes r x :: real
  assumes "- 1 < r"
  shows "((r\<^sup>2 + x\<^sup>2 - 1) / (r\<^sup>2 + x\<^sup>2 + 2 * r + 1) - r / (r + 1))\<^sup>2
           + (2 * x / (r\<^sup>2 + x\<^sup>2 + 2 * r + 1))\<^sup>2 = (1 / (r + 1))\<^sup>2"
proof -
  define s where "s = r + 1"
  define D where "D = r\<^sup>2 + x\<^sup>2 + 2 * r + 1"
  define t where "t = 1 / D"
  define q where "q = 1 / s"
  have s: "s \<noteq> 0" using assms by (simp add: s_def)
  have Dpos: "0 < D" unfolding D_def using assms by (intro Zplus1_pos) auto
  have D_eq: "D = s\<^sup>2 + x\<^sup>2" by (simp add: D_def s_def power2_eq_square algebra_simps)
  have sq: "s * q = 1" using s by (simp add: q_def)
  have tD: "t * (s\<^sup>2 + x\<^sup>2) = 1" using Dpos by (simp add: t_def D_eq [symmetric])
  have u: "(r\<^sup>2 + x\<^sup>2 - 1) / D = 1 - 2 * s * t"
    unfolding D_def t_def s_def by (rule RXtoUV_alt) (use Dpos in \<open>simp add: D_def\<close>)
  have c: "r / (r + 1) = 1 - q"
    using s by (simp add: q_def s_def field_simps)
  have v: "2 * x / D = 2 * x * t" by (simp add: t_def)
  have "(1 - 2 * s * t - (1 - q))\<^sup>2 + (2 * x * t)\<^sup>2
          = q\<^sup>2 - 4 * (s * q) * t + 4 * t * (t * (s\<^sup>2 + x\<^sup>2))"
    by (simp add: power2_eq_square algebra_simps)
  also have "\<dots> = q\<^sup>2" by (simp only: sq tD; simp)
  finally have "((r\<^sup>2 + x\<^sup>2 - 1) / D - r / (r + 1))\<^sup>2 + (2 * x / D)\<^sup>2 = q\<^sup>2"
    by (simp only: u c v)
  then show ?thesis by (simp only: D_def q_def s_def)
qed

lemma X_circle:
  fixes r x :: real
  assumes "x \<noteq> 0"
  shows "((r\<^sup>2 + x\<^sup>2 - 1) / (r\<^sup>2 + x\<^sup>2 + 2 * r + 1) - 1)\<^sup>2
           + (2 * x / (r\<^sup>2 + x\<^sup>2 + 2 * r + 1) - 1 / x)\<^sup>2 = (1 / x)\<^sup>2"
proof -
  define s where "s = r + 1"
  define D where "D = r\<^sup>2 + x\<^sup>2 + 2 * r + 1"
  define t where "t = 1 / D"
  define p where "p = 1 / x"
  have Dpos: "0 < D" unfolding D_def using assms by (intro Zplus1_pos) auto
  have D_eq: "D = s\<^sup>2 + x\<^sup>2" by (simp add: D_def s_def power2_eq_square algebra_simps)
  have xp: "x * p = 1" using assms by (simp add: p_def)
  have tD: "t * (s\<^sup>2 + x\<^sup>2) = 1" using Dpos by (simp add: t_def D_eq [symmetric])
  have u: "(r\<^sup>2 + x\<^sup>2 - 1) / D = 1 - 2 * s * t"
    unfolding D_def t_def s_def by (rule RXtoUV_alt) (use Dpos in \<open>simp add: D_def\<close>)
  have v: "2 * x / D = 2 * x * t" by (simp add: t_def)
  have "(1 - 2 * s * t - 1)\<^sup>2 + (2 * x * t - p)\<^sup>2
          = 4 * t * (t * (s\<^sup>2 + x\<^sup>2)) - 4 * (x * p) * t + p\<^sup>2"
    by (simp add: power2_eq_square algebra_simps)
  also have "\<dots> = p\<^sup>2" by (simp only: xp tD; simp)
  finally have "((r\<^sup>2 + x\<^sup>2 - 1) / D - 1)\<^sup>2 + (2 * x / D - p)\<^sup>2 = p\<^sup>2"
    by (simp only: u v)
  then show ?thesis by (simp only: D_def p_def)
qed

lemma point_on_circle_at_atan2:
  fixes dx dy rho :: real
  assumes "dx\<^sup>2 + dy\<^sup>2 = rho\<^sup>2" "0 < rho"
  shows "rho * cos (atan2_real dy dx) = dx" "rho * sin (atan2_real dy dx) = dy"
proof -
  have nz: "dx \<noteq> 0 \<or> dy \<noteq> 0"
    using assms by (auto simp: power2_eq_square)
  have sq: "sqrt (dx\<^sup>2 + dy\<^sup>2) = rho"
    using assms by (simp add: real_sqrt_unique)
  show "rho * cos (atan2_real dy dx) = dx"
    using assms(2) by (simp add: cos_atan2_real [OF nz] sq)
  show "rho * sin (atan2_real dy dx) = dy"
    using assms(2) by (simp add: sin_atan2_real [OF nz] sq)
qed

lemma calls_cairo [simp]: "calls (cr (cairo c w)) = calls (cr w) @ [c]"
  by (simp add: cairo_def)

lemma options_cairo [simp]: "options (cairo c w) = options w"
  by (simp add: cairo_def)

lemma seq_Nil: "seq [] w = w"
  by (simp add: seq_def)

lemma seq_Cons: "seq (f # fs) w = seq fs (f w)"
  by (simp add: seq_def)

lemma drawArc_calls:
  "calls (cr (drawArc uv radius a1 a2 w))
     = calls (cr w) @ [Arc (U uv * SMITH_RADIUS) (V uv * SMITH_RADIUS) (radius * SMITH_RADIUS) a1 a2, Stroke]"
  by (simp add: drawArc_def seq_Nil seq_Cons)

lemma angleR_Fin:
  assumes "- 1 < r"
  shows "angleR \<lparr>R = Fin r, X = Fin x\<rparr> =
           Fin (atan2_real (2 * x / (r\<^sup>2 + x\<^sup>2 + 2 * r + 1))
                  ((r\<^sup>2 + x\<^sup>2 - 1) / (r\<^sup>2 + x\<^sup>2 + 2 * r + 1) - r / (r + 1)))"
proof -
  have "0 < r\<^sup>2 + x\<^sup>2 + 2 * r + 1" using assms by (intro Zplus1_pos) auto
  then show ?thesis
    using assms by (simp add: angleR_def RXtoUV_Fin minus_gdouble_def)
qed

lemma angleX_Fin:
  assumes "x \<noteq> 0"
  shows "angleX \<lparr>R = Fin r, X = Fin x\<rparr> =
           Fin (atan2_real (2 * x / (r\<^sup>2 + x\<^sup>2 + 2 * r + 1) - 1 / x)
                  ((r\<^sup>2 + x\<^sup>2 - 1) / (r\<^sup>2 + x\<^sup>2 + 2 * r + 1) - 1))"
proof -
  have "0 < r\<^sup>2 + x\<^sup>2 + 2 * r + 1" using assms by (intro Zplus1_pos) auto
  then show ?thesis
    using assms by (simp add: angleX_def RXtoUV_Fin minus_gdouble_def)
qed

lemma drawRarc_calls:
  assumes "- 1 < rArc"
  shows "calls (cr (drawRarc (Fin rArc) xFrom xTo w)) =
           calls (cr w) @
             [Arc (Fin (rArc / (rArc + 1))) (Fin 0) (Fin (1 / (rArc + 1)))
                (angleR \<lparr>R = Fin rArc, X = xFrom\<rparr>) (angleR \<lparr>R = Fin rArc, X = xTo\<rparr>),
              Stroke]"
  using assms by (simp add: drawRarc_def drawArc_calls SMITH_RADIUS_def Let_def)

lemma drawXarc_calls:
  assumes "xArc \<noteq> 0"
  shows "calls (cr (drawXarc (Fin xArc) rFrom rTo w)) =
           calls (cr w) @
             [Arc (Fin 1) (Fin (1 / xArc)) (Fin \<bar>1 / xArc\<bar>)
                (angleX \<lparr>R = rFrom, X = Fin xArc\<rparr>) (angleX \<lparr>R = rTo, X = Fin xArc\<rparr>),
              Stroke]"
  using assms by (simp add: drawXarc_def drawArc_calls SMITH_RADIUS_def Let_def)

lemma R_arc_point:
  fixes rArc x :: real
  assumes "- 1 < rArc"
  shows "\<exists>u v. RXtoUV \<lparr>R = Fin rArc, X = Fin x\<rparr> = \<lparr>U = Fin u, V = Fin v\<rparr>
           \<and> sqrt ((u - rArc / (rArc + 1))\<^sup>2 + v\<^sup>2) = 1 / (rArc + 1)
           \<and> angleR \<lparr>R = Fin rArc, X = Fin x\<rparr> = Fin (atan2_real v (u - rArc / (rArc + 1)))
           \<and> u = rArc / (rArc + 1) + 1 / (rArc + 1) * cos (atan2_real v (u - rArc / (rArc + 1)))
           \<and> v = 0 + 1 / (rArc + 1) * sin (atan2_real v (u - rArc / (rArc + 1)))"
proof -
  define D where "D = rArc\<^sup>2 + x\<^sup>2 + 2 * rArc + 1"
  define u where "u = (rArc\<^sup>2 + x\<^sup>2 - 1) / D"
  define v where "v = 2 * x / D"
  define rho where "rho = 1 / (rArc + 1)"
  have Dpos: "0 < D" unfolding D_def using assms by (intro Zplus1_pos) auto
  have rho: "0 < rho" using assms by (simp add: rho_def)
  have uv: "RXtoUV \<lparr>R = Fin rArc, X = Fin x\<rparr> = \<lparr>U = Fin u, V = Fin v\<rparr>"
    using Dpos by (simp add: RXtoUV_Fin u_def v_def D_def)
  have circ: "(u - rArc / (rArc + 1))\<^sup>2 + v\<^sup>2 = rho\<^sup>2"
    unfolding u_def v_def D_def rho_def by (rule R_circle [OF assms])
  have dist: "sqrt ((u - rArc / (rArc + 1))\<^sup>2 + v\<^sup>2) = rho"
    using rho by (simp add: circ)
  have ang: "angleR \<lparr>R = Fin rArc, X = Fin x\<rparr> = Fin (atan2_real v (u - rArc / (rArc + 1)))"
    unfolding u_def v_def D_def by (rule angleR_Fin [OF assms])
  note pt = point_on_circle_at_atan2 [OF circ rho]
  have "u = rArc / (rArc + 1) + rho * cos (atan2_real v (u - rArc / (rArc + 1)))"
    by (simp add: pt)
  moreover have "v = 0 + rho * sin (atan2_real v (u - rArc / (rArc + 1)))"
    by (simp add: pt)
  ultimately show ?thesis
    using uv dist ang unfolding rho_def by blast
qed

lemma X_arc_point:
  fixes xArc r :: real
  assumes "xArc \<noteq> 0"
  shows "\<exists>u v. RXtoUV \<lparr>R = Fin r, X = Fin xArc\<rparr> = \<lparr>U = Fin u, V = Fin v\<rparr>
           \<and> sqrt ((u - 1)\<^sup>2 + (v - 1 / xArc)\<^sup>2) = \<bar>1 / xArc\<bar>
           \<and> angleX \<lparr>R = Fin r, X = Fin xArc\<rparr> = Fin (atan2_real (v - 1 / xArc) (u - 1))
           \<and> u = 1 + \<bar>1 / xArc\<bar> * cos (atan2_real (v - 1 / xArc) (u - 1))
           \<and> v = 1 / xArc + \<bar>1 / xArc\<bar> * sin (atan2_real (v - 1 / xArc) (u - 1))"
proof -
  define D where "D = r\<^sup>2 + xArc\<^sup>2 + 2 * r + 1"
  define u where "u = (r\<^sup>2 + xArc\<^sup>2 - 1) / D"
  define v where "v = 2 * xArc / D"
  define rho where "rho = \<bar>1 / xArc\<bar>"
  have Dpos: "0 < D" unfolding D_def using assms by (intro Zplus1_pos) auto
  have rho: "0 < rho" using assms by (simp add: rho_def)
  have uv: "RXtoUV \<lparr>R = Fin r, X = Fin xArc\<rparr> = \<lparr>U = Fin u, V = Fin v\<rparr>"
    using Dpos by (simp add: RXtoUV_Fin u_def v_def D_def)
  have "(u - 1)\<^sup>2 + (v - 1 / xArc)\<^sup>2 = (1 / xArc)\<^sup>2"
    unfolding u_def v_def D_def by (rule X_circle [OF assms])
  then have circ: "(u - 1)\<^sup>2 + (v - 1 / xArc)\<^sup>2 = rho\<^sup>2"
    unfolding rho_def by (simp only: power2_abs)
  have dist: "sqrt ((u - 1)\<^sup>2 + (v - 1 / xArc)\<^sup>2) = rho"
    using rho by (simp add: circ)
  have ang: "angleX \<lparr>R = Fin r, X = Fin xArc\<rparr> = Fin (atan2_real (v - 1 / xArc) (u - 1))"
    unfolding u_def v_def D_def by (rule angleX_Fin [OF assms])
  note pt = point_on_circle_at_atan2 [OF circ rho]
  have "u = 1 + rho * cos (atan2_real (v - 1 / xArc) (u - 1))"
    by (simp add: pt)
  moreover have "v = 1 / xArc + rho * sin (atan2_real (v - 1 / xArc) (u - 1))"
    by (simp add: pt)
  ultimately show ?thesis
    using uv dist ang unfolding rho_def by blast
qed

text \<open>
  Claim C3. For \<open>rArc > -1\<close> and every reactance \<open>x\<close>, the point
  \<open>RXtoUV {rArc, x}\<close> lies at distance \<open>1 / (rArc + 1)\<close> from
  \<open>(rArc / (rArc + 1), 0)\<close>; \<open>angleR\<close> is the \<open>atan2\<close> of the point relative to
  that centre, and the point of the circle at that angle is the transformed
  point itself. \<open>drawRarc\<close> emits the arc with this centre, this radius and
  the angles of its two end points, so the arc passes through both. The same
  holds for \<open>xArc \<noteq> 0\<close> and every resistance \<open>r\<close> (the denominator of the
  transform is then positive), with centre \<open>(1, 1 / xArc)\<close>, radius
  \<open>|1 / xArc|\<close>, \<open>angleX\<close> and \<open>drawXarc\<close>.
\<close>

theorem arcs_through_transformed_points:
  fixes rArc x xFrom xTo xArc r rFrom rTo :: real and w :: world
  shows
    "(- 1 < rArc \<longrightarrow>
        (\<exists>u v. RXtoUV \<lparr>R = Fin rArc, X = Fin x\<rparr> = \<lparr>U = Fin u, V = Fin v\<rparr>
           \<and> sqrt ((u - rArc / (rArc + 1))\<^sup>2 + v\<^sup>2) = 1 / (rArc + 1)
           \<and> angleR \<lparr>R = Fin rArc, X = Fin x\<rparr> = Fin (atan2_real v (u - rArc / (rArc + 1)))
           \<and> u = rArc / (rArc + 1) + 1 / (rArc + 1) * cos (atan2_real v (u - rArc / (rArc + 1)))
           \<and> v = 0 + 1 / (rArc + 1) * sin (atan2_real v (u - rArc / (rArc + 1))))
        \<and> calls (cr (drawRarc (Fin rArc) (Fin xFrom) (Fin xTo) w)) =
            calls (cr w) @
              [Arc (Fin (rArc / (rArc + 1))) (Fin 0) (Fin (1 / (rArc + 1)))
                 (angleR \<lparr>R = Fin rArc, X = Fin xFrom\<rparr>) (angleR \<lparr>R = Fin rArc, X = Fin xTo\<rparr>),
               Stroke])
     \<and> (xArc \<noteq> 0 \<longrightarrow>
        (\<exists>u v. RXtoUV \<lparr>R = Fin r, X = Fin xArc\<rparr> = \<lparr>U = Fin u, V = Fin v\<rparr>
           \<and> sqrt ((u - 1)\<^sup>2 + (v - 1 / xArc)\<^sup>2) = \<bar>1 / xArc\<bar>
           \<and> angleX \<lparr>R = Fin r, X = Fin xArc\<rparr> = Fin (atan2_real (v - 1 / xArc) (u - 1))
           \<and> u = 1 + \<bar>1 / xArc\<bar> * cos (atan2_real (v - 1 / xArc) (u - 1))
           \<and> v = 1 / xArc + \<bar>1 / xArc\<bar> * sin (atan2_real (v - 1 / xArc) (u - 1)))
        \<and> calls (cr (drawXarc (Fin xArc) (Fin rFrom) (Fin rTo) w)) =
            calls (cr w) @
              [Arc (Fin 1) (Fin (1 / xArc)) (Fin \<bar>1 / xArc\<bar>)
                 (angleX \<lparr>R = Fin rFrom, X = Fin xArc\<rparr>) (angleX \<lparr>R = Fin rTo, X = Fin xArc\<rparr>),
               Stroke])"
  using R_arc_point [of rArc x] X_arc_point [of xArc r]
    drawRarc_calls [of rArc "Fin xFrom" "Fin xTo" w] drawXarc_calls [of xArc "Fin rFrom" "Fin rTo" w]
  by blast

theorem arcs_through_transformed_points_witness:
  "- 1 < (1::real) \<and> (2::real) \<noteq> 0
   \<and> (\<exists>u v. RXtoUV \<lparr>R = Fin 1, X = Fin 3\<rparr> = \<lparr>U = Fin u, V = Fin v\<rparr>
         \<and> sqrt ((u - 1 / (1 + 1))\<^sup>2 + v\<^sup>2) = 1 / (1 + 1))
   \<and> (\<exists>u v. RXtoUV \<lparr>R = Fin 5, X = Fin 2\<rparr> = \<lparr>U = Fin u, V = Fin v\<rparr>
         \<and> sqrt ((u - 1)\<^sup>2 + (v - 1 / 2)\<^sup>2) = \<bar>1 / 2\<bar>)"
  using arcs_through_transformed_points [of 1 3 0 1 initial_world 2 5 0 1]
  by auto

section \<open>Properties of the angle-ring scale\<close>










section \<open>Properties of the curve fitter\<close>

lemma bezierControlPoints_fst:
  "A l = A l' \<Longrightarrow> fst (bezierControlPoints g l) = fst (bezierControlPoints g l')"
  by (simp add: bezierControlPoints_def Let_def angle_def)

lemma bezierControlPoints_snd:
  "B g = B g' \<Longrightarrow> snd (bezierControlPoints g l) = snd (bezierControlPoints g' l)"
  by (simp add: bezierControlPoints_def Let_def angle_def)

lemma foreach_opt_cong:
  "(\<And>x w. x \<in> set xs \<Longrightarrow> f x w = g x w) \<Longrightarrow> foreach_opt xs f w = foreach_opt xs g w"
proof (induction xs arbitrary: w)
  case Nil
  then show ?case by simp
next
  case (Cons x xs)
  have "f x w = g x w" using Cons.prems by simp
  moreover have "foreach_opt xs f w' = foreach_opt xs g w'" for w'
    using Cons.prems by (intro Cons.IH) simp
  ultimately show ?case
    by (cases "g x w") simp_all
qed

lemma element_in_range:
  "0 \<le> k \<Longrightarrow> k < int (length uvPoints) \<Longrightarrow> element uvPoints k = Some (uvPoints ! nat k)"
  by (simp add: element_def)

lemma wrap_mod:
  fixes a n :: int
  assumes "0 \<le> a" "a < n"
  shows "(a + n) mod n = a"
  using assms by simp

lemma gint_wrap_id:
  "- 2147483648 \<le> k \<Longrightarrow> k < 2147483648 \<Longrightarrow> gint_wrap k = k"
  by (simp add: gint_wrap_def)

lemma gint_rem_nonneg:
  "0 \<le> a \<Longrightarrow> 0 < b \<Longrightarrow> gint_rem a b = a mod b"
  by (cases "a = 0") (simp_all add: gint_rem_def)

lemma index_sum:
  assumes "1 \<le> i" "i < n" "n < 1073741824" "- 2 \<le> d" "d \<le> 1"
  shows "gint_rem (gint_wrap (gint_wrap (i + n) + d)) n = (i + n + d) mod n"
proof -
  have "gint_wrap (i + n) = i + n"
    using assms by (intro gint_wrap_id) simp_all
  moreover have "gint_wrap (i + n + d) = i + n + d"
    using assms by (intro gint_wrap_id) simp_all
  moreover have "gint_rem (i + n + d) n = (i + n + d) mod n"
    using assms by (intro gint_rem_nonneg) simp_all
  ultimately show ?thesis by simp
qed

lemma bezierSegment_eq_clamped:
  assumes len: "length' \<le> int (length uvPoints)" and i: "1 \<le> i" "i \<le> length' - 1"
    and small: "length' < 1073741824"
  shows "bezierSegment uvPoints length' i w = bezierSegment_clamped uvPoints length' i w"
proof -
  have idx:
    "gint_rem (gint_sub (gint_add i length') 2) length' = (i + length' - 2) mod length'"
    "gint_rem (gint_sub (gint_add i length') 1) length' = (i + length' - 1) mod length'"
    "gint_rem (gint_add (gint_add i length') 0) length' = (i + length' + 0) mod length'"
    "gint_rem (gint_add (gint_add i length') 1) length' = (i + length' + 1) mod length'"
    using index_sum [of i length' "- 2"] index_sum [of i length' "- 1"]
      index_sum [of i length' 0] index_sum [of i length' 1] i small
    by (simp_all add: gint_add_def gint_sub_def)
  have gB: "(i + length' - 1) mod length' = i - 1"
    using wrap_mod [of "i - 1" length'] i by (simp add: algebra_simps)
  have lA: "(i + length' + 0) mod length' = i" "i mod length' = i"
    using wrap_mod [of i length'] i by simp_all
  have eB: "element uvPoints (i - 1) = Some (uvPoints ! nat (i - 1))"
    using len i by (intro element_in_range) auto
  have eA: "element uvPoints i = Some (uvPoints ! nat i)"
    using len i by (intro element_in_range) auto
  have rng: "0 \<le> (k mod length')" "k mod length' < int (length uvPoints)" for k
    using len i by (auto intro: order_less_le_trans [OF pos_mod_bound])
  have eW: "element uvPoints (k mod length') = Some (uvPoints ! nat (k mod length'))" for k
    using rng by (intro element_in_range)
  have crng: "0 \<le> clamp_index length' k" "clamp_index length' k < int (length uvPoints)" for k
    using len i by (auto simp: clamp_index_def)
  have eC: "element uvPoints (clamp_index length' k) = Some (uvPoints ! nat (clamp_index length' k))" for k
    using crng by (intro element_in_range)
  define gA where "gA = uvPoints ! nat ((i + length' - 2) mod length')"
  define gA' where "gA' = uvPoints ! nat (clamp_index length' (i - 2))"
  define lB where "lB = uvPoints ! nat ((i + length' + 1) mod length')"
  define lB' where "lB' = uvPoints ! nat (clamp_index length' (i + 1))"
  define gB where "gB = uvPoints ! nat (i - 1)"
  define lA where "lA = uvPoints ! nat i"
  have first: "i \<noteq> 1 \<Longrightarrow> gA = gA'"
  proof -
    assume "i \<noteq> 1"
    then have "2 \<le> i" using i by simp
    then have "(i + length' - 2) mod length' = i - 2" "clamp_index length' (i - 2) = i - 2"
      using wrap_mod [of "i - 2" length'] i by (simp_all add: clamp_index_def algebra_simps)
    then show ?thesis by (simp add: gA_def gA'_def)
  qed
  have last: "i \<noteq> length' - 1 \<Longrightarrow> lB = lB'"
  proof -
    assume "i \<noteq> length' - 1"
    then have "i + 1 \<le> length' - 1" using i by simp
    then have "(i + length' + 1) mod length' = i + 1" "clamp_index length' (i + 1) = i + 1"
      using wrap_mod [of "i + 1" length'] i by (simp_all add: clamp_index_def algebra_simps)
    then show ?thesis by (simp add: lB_def lB'_def)
  qed
  define C1 where
    "C1 = (if i = 1 then gB else fst (bezierControlPoints \<lparr>A = gA, B = gB\<rparr> \<lparr>A = lA, B = lB\<rparr>))"
  define C1' where
    "C1' = (if i = 1 then gB else fst (bezierControlPoints \<lparr>A = gA', B = gB\<rparr> \<lparr>A = lA, B = lB'\<rparr>))"
  define C2 where
    "C2 = (if i = length' - 1 then lA
           else snd (bezierControlPoints \<lparr>A = gA, B = gB\<rparr> \<lparr>A = lA, B = lB\<rparr>))"
  define C2' where
    "C2' = (if i = length' - 1 then lA
            else snd (bezierControlPoints \<lparr>A = gA', B = gB\<rparr> \<lparr>A = lA, B = lB'\<rparr>))"
  have c1: "C1 = C1'"
    unfolding C1_def C1'_def
    using first bezierControlPoints_fst [of "\<lparr>A = lA, B = lB\<rparr>" "\<lparr>A = lA, B = lB'\<rparr>"]
    by auto
  have c2: "C2 = C2'"
    unfolding C2_def C2'_def
    using last bezierControlPoints_snd [of "\<lparr>A = gA, B = gB\<rparr>" "\<lparr>A = gA', B = gB\<rparr>"]
    by auto
  have W: "bezierSegment uvPoints length' i w
             = Some (cairo_curve_to (U C1) (V C1) (U C2) (V C2) (U lA) (V lA) w)"
    unfolding bezierSegment_def idx eW eA
    by (simp add: gB lA Let_def case_prod_beta C1_def C2_def gA_def lB_def gB_def lA_def
        split del: if_split cong: if_cong)
  have C: "bezierSegment_clamped uvPoints length' i w
             = Some (cairo_curve_to (U C1') (V C1') (U C2') (V C2') (U lA) (V lA) w)"
    unfolding bezierSegment_clamped_def eC eA eB
    by (simp add: Let_def case_prod_beta C1'_def C2'_def gA'_def lB'_def gB_def lA_def
        split del: if_split cong: if_cong)
  show ?thesis
    by (simp only: W C c1 c2)
qed

text \<open>
  Claim C5. Fitting a sequence of exactly two points \<open>p\<close>, \<open>q\<close> returns and
  emits exactly one cubic segment, from \<open>p\<close> to \<open>q\<close>, whose first control
  point is \<open>p\<close> and whose second control point is \<open>q\<close>, for every pair of
  points, every options pointer and every state of the sink.
\<close>

theorem two_points_one_segment:
  "\<exists>w'. drawBezierCurveOnSmithChart [p, q] 2 pOptions w = Some w'
     \<and> calls (cr w') = calls (cr w) @
         [ Save,
           SetMatrix (matrix (options w (or_default pOptions))),
           SetLineWidth (SRpct (lineWidth (options w (or_default pOptions)))),
           SetSourceRGBA (red (colorLine (options w (or_default pOptions))))
             (green (colorLine (options w (or_default pOptions))))
             (blue (colorLine (options w (or_default pOptions))))
             (alpha (colorLine (options w (or_default pOptions)))),
           NewPath,
           MoveTo (U p) (V p),
           CurveTo (U p) (V p) (U q) (V q) (U q) (V q),
           Stroke,
           Restore ]"
  by (simp add: drawBezierCurveOnSmithChart_def bezierSegment_def element_def Let_def
      gint_add_def gint_sub_def gint_wrap_def gint_rem_def
      set_source_color_def case_prod_beta seq_Nil seq_Cons)

lemma foreach_opt_returns:
  "(\<And>x w. x \<in> set xs \<Longrightarrow> \<exists>w'. body x w = Some w')
     \<Longrightarrow> \<exists>w'. foreach_opt xs body w = Some w'"
proof (induction xs arbitrary: w)
  case Nil
  then show ?case by simp
next
  case (Cons x xs)
  obtain w1 where "body x w = Some w1"
    using Cons.prems [of x w] by auto
  moreover have "\<exists>w'. foreach_opt xs body w1 = Some w'"
    using Cons.prems by (intro Cons.IH) simp
  ultimately show ?case by simp
qed

lemma bezierSegment_clamped_returns:
  assumes "length' \<le> int (length uvPoints)" "1 \<le> i" "i \<le> length' - 1"
  shows "\<exists>w'. bezierSegment_clamped uvPoints length' i w = Some w'"
proof -
  have "element uvPoints (i - 1) = Some (uvPoints ! nat (i - 1))"
    "element uvPoints i = Some (uvPoints ! nat i)"
    using assms by (simp_all add: element_def)
  moreover have
    "element uvPoints (clamp_index length' k) = Some (uvPoints ! nat (clamp_index length' k))" for k
    using assms by (intro element_in_range) (auto simp: clamp_index_def)
  ultimately show ?thesis
    by (simp add: bezierSegment_clamped_def Let_def case_prod_beta)
qed

lemma drawBezierCurve_clamped_returns:
  assumes "1 \<le> length'" "length' \<le> int (length uvPoints)"
  shows "\<exists>w'. drawBezierCurve_clamped uvPoints length' pOptions w = Some w'"
proof -
  have 0: "element uvPoints 0 = Some (uvPoints ! 0)"
    using assms by (cases uvPoints) (simp_all add: element_def)
  have "\<exists>w'. foreach_opt [1..length' - 1] (bezierSegment_clamped uvPoints length') w1 = Some w'"
    for w1
    using assms by (intro foreach_opt_returns bezierSegment_clamped_returns) auto
  then show ?thesis
    unfolding drawBezierCurve_clamped_def Let_def 0
    by (auto simp: bind_eq_Some_conv)
qed

lemma drawBezierCurveOnSmithChart_eq_clamped:
  assumes "2 \<le> length'" "length' \<le> int (length uvPoints)" "length' < 1073741824"
  shows "drawBezierCurveOnSmithChart uvPoints length' pOptions w
           = drawBezierCurve_clamped uvPoints length' pOptions w"
proof -
  have "foreach_opt [1..length' - 1] (bezierSegment uvPoints length') w'
          = foreach_opt [1..length' - 1] (bezierSegment_clamped uvPoints length') w'" for w'
    using assms by (intro foreach_opt_cong bezierSegment_eq_clamped) auto
  then show ?thesis
    by (simp add: drawBezierCurveOnSmithChart_def drawBezierCurve_clamped_def)
qed

text \<open>
  The third segment of a sequence of \<open>2\<^sup>3\<^sup>1 - 3\<close> points: the sum
  \<open>i + length + 1\<close> is \<open>2\<^sup>3\<^sup>1\<close> at \<open>i = 2\<close>, which wraps to \<open>- 2\<^sup>3\<^sup>1\<close>, and the
  remainder is the index \<open>- 3\<close>.
\<close>

lemma overflowing_index:
  "gint_rem (gint_add (gint_add 2 2147483645) 1) 2147483645 = - 3"
  by (simp add: gint_rem_def gint_add_def gint_wrap_def)

lemma bezierSegment_overflow:
  assumes "length uvPoints = 2147483645"
  shows "bezierSegment uvPoints 2147483645 2 w = None"
proof -
  have "element uvPoints (- 3) = None"
    by (simp add: element_def)
  then show ?thesis
    unfolding bezierSegment_def overflowing_index by (simp split: Option.bind_split)
qed

lemma drawBezierCurveOnSmithChart_overflow:
  assumes "length uvPoints = 2147483645"
  shows "drawBezierCurveOnSmithChart uvPoints 2147483645 pOptions w = None"
proof -
  have "[1..2147483645 - 1] = 1 # 2 # [3..2147483644::int]"
    using upto_rec1 [of 1 2147483644] upto_rec1 [of 2 2147483644]
    by (simp del: upto_rec_numeral)
  then have "foreach_opt [1..2147483645 - 1] (bezierSegment uvPoints 2147483645) w1 = None" for w1
    using bezierSegment_overflow [OF assms]
    by (simp del: upto_rec_numeral split: Option.bind_split)
  then show ?thesis
    unfolding drawBezierCurveOnSmithChart_def Let_def
    by (simp del: upto_rec_numeral split: Option.bind_split)
qed

text \<open>
  Claim C6. For a sequence of \<open>N\<close> points with \<open>2 \<le> N < 2\<^sup>3\<^sup>0\<close>, the range in
  which the 32-bit index sums of the fitter do not overflow, the curve fitter
  and the reference fitter with clamped neighbour indices have the same
  result: the wrapped neighbours of the first and the last segment feed only
  the control points that are then forced to the segment's end points.
\<close>

theorem wrapped_equals_clamped:
  assumes "2 \<le> length'" "length' \<le> int (length uvPoints)" "length' < 1073741824"
  shows "drawBezierCurveOnSmithChart uvPoints length' pOptions w
           = drawBezierCurve_clamped uvPoints length' pOptions w"
  using assms by (rule drawBezierCurveOnSmithChart_eq_clamped)

theorem wrapped_equals_clamped_witness:
  "(2::int) \<le> 3
   \<and> 3 \<le> int (length [\<lparr>U = Fin 0, V = Fin 0\<rparr>, \<lparr>U = Fin (1 / 2), V = Fin 0\<rparr>,
                        \<lparr>U = Fin (1 / 2), V = Fin (1 / 2)\<rparr>])
   \<and> (3::int) < 1073741824
   \<and> drawBezierCurveOnSmithChart
         [\<lparr>U = Fin 0, V = Fin 0\<rparr>, \<lparr>U = Fin (1 / 2), V = Fin 0\<rparr>, \<lparr>U = Fin (1 / 2), V = Fin (1 / 2)\<rparr>]
         3 NULL initial_world
       = drawBezierCurve_clamped
         [\<lparr>U = Fin 0, V = Fin 0\<rparr>, \<lparr>U = Fin (1 / 2), V = Fin 0\<rparr>, \<lparr>U = Fin (1 / 2), V = Fin (1 / 2)\<rparr>]
         3 NULL initial_world"
proof -
  have h1: "(2::int) \<le> 3" by simp
  have h2: "3 \<le> int (length [\<lparr>U = Fin 0, V = Fin 0\<rparr>, \<lparr>U = Fin (1 / 2), V = Fin 0\<rparr>,
                        \<lparr>U = Fin (1 / 2), V = Fin (1 / 2)\<rparr>])" by simp
  have h3: "(3::int) < 1073741824" by simp
  from wrapped_equals_clamped [OF h1 h2 h3] h1 h2 h3 show ?thesis
    by (intro conjI)
qed

text \<open>
  Claim C6, as the specification states it for every \<open>N \<ge> 2\<close>, fails on a
  sequence of \<open>2\<^sup>3\<^sup>1 - 3\<close> points: at the segment \<open>i = 2\<close> the index sum
  overflows and the fitter reads \<open>uvPoints[-3]\<close>, outside the array, while the
  reference fitter returns.
\<close>

theorem wrapped_equals_clamped_counterexample:
  "(2::int) \<le> 2147483645
   \<and> 2147483645 \<le> int (length (replicate 2147483645 \<lparr>U = Fin 0, V = Fin 0\<rparr>))
   \<and> drawBezierCurveOnSmithChart (replicate 2147483645 \<lparr>U = Fin 0, V = Fin 0\<rparr>)
        2147483645 NULL initial_world = None
   \<and> (\<exists>w'. drawBezierCurve_clamped (replicate 2147483645 \<lparr>U = Fin 0, V = Fin 0\<rparr>)
        2147483645 NULL initial_world = Some w')"
proof -
  have len: "length (replicate 2147483645 \<lparr>U = Fin 0, V = Fin 0\<rparr>) = 2147483645"
    by (rule length_replicate)
  have "2147483645 \<le> int (length (replicate 2147483645 \<lparr>U = Fin 0, V = Fin 0\<rparr>))"
    unfolding len by simp
  moreover from this have
    "\<exists>w'. drawBezierCurve_clamped (replicate 2147483645 \<lparr>U = Fin 0, V = Fin 0\<rparr>)
        2147483645 NULL initial_world = Some w'"
    by (intro drawBezierCurve_clamped_returns) simp_all
  moreover note drawBezierCurveOnSmithChart_overflow [OF len]
  moreover have "(2::int) \<le> 2147483645" by simp
  ultimately show ?thesis
    by (intro conjI)
qed

section \<open>Properties of the grid renderer\<close>

lemma line_widths_append [simp]: "line_widths (xs @ ys) = line_widths xs @ line_widths ys"
  by (induction xs rule: line_widths.induct) simp_all

lemma line_widths_drawArc [simp]:
  "line_widths (calls (cr (drawArc uv radius a1 a2 w))) = line_widths (calls (cr w))"
  by (simp add: drawArc_calls)

lemma line_widths_drawRarc [simp]:
  "line_widths (calls (cr (drawRarc rArc xFrom xTo w))) = line_widths (calls (cr w))"
  by (simp add: drawRarc_def Let_def)

lemma line_widths_drawXarc [simp]:
  "line_widths (calls (cr (drawXarc xArc rFrom rTo w))) = line_widths (calls (cr w))"
  by (simp add: drawXarc_def Let_def)

lemma drawZone_7:
  assumes "8 < length zones" "minorPerMajorDiv (zones ! 7) \<noteq> SPECIAL_CASE"
  shows "drawZone zones 7 w =
           do {
             w \<leftarrow> drawBlock \<lparr>R = Fin 0, X = region (zones ! 7)\<rparr>
                    \<lparr>R = region (zones ! 8), X = region (zones ! 8)\<rparr>
                    (minorDiv (zones ! 7)) (minorPerMajorDiv (zones ! 7)) w;
             drawBlock \<lparr>R = region (zones ! 7), X = Fin 0\<rparr>
               \<lparr>R = region (zones ! 8), X = region (zones ! 7)\<rparr>
               (minorDiv (zones ! 7)) 3 w
           }"
  using assms by (simp add: drawZone_def Let_def)

lemma stdGrid_7:
  "length stdGrid = 9" "stdGrid ! 7 = zone 20 10 5" "stdGrid ! 8 = zone 50 0 END"
  by (simp_all add: stdGrid_def)

lemma drawBlock_stdGrid_7_first:
  "\<exists>w'. drawBlock \<lparr>R = Fin 0, X = Fin 20\<rparr> \<lparr>R = Fin 50, X = Fin 50\<rparr> (Fin 10) 5 w = Some w'
     \<and> line_widths (calls (cr w')) = line_widths (calls (cr w)) @
          [STROKE_WIDTH_MINOR, STROKE_WIDTH_MINOR, STROKE_WIDTH_MINOR, STROKE_WIDTH_MINOR,
           STROKE_WIDTH_MAJOR, STROKE_WIDTH_MINOR, STROKE_WIDTH_MINOR, STROKE_WIDTH_MINOR]"
  by (simp add: drawBlock_def for_gdouble.simps tick_line_width_def seq_Nil seq_Cons)

lemma drawBlock_stdGrid_7_first_3:
  "\<exists>w'. drawBlock \<lparr>R = Fin 0, X = Fin 20\<rparr> \<lparr>R = Fin 50, X = Fin 50\<rparr> (Fin 10) 3 w = Some w'
     \<and> line_widths (calls (cr w')) = line_widths (calls (cr w)) @
          [STROKE_WIDTH_MINOR, STROKE_WIDTH_MINOR, STROKE_WIDTH_MAJOR, STROKE_WIDTH_MINOR,
           STROKE_WIDTH_MINOR, STROKE_WIDTH_MINOR, STROKE_WIDTH_MINOR, STROKE_WIDTH_MAJOR]"
  by (simp add: drawBlock_def for_gdouble.simps tick_line_width_def seq_Nil seq_Cons)

lemma drawBlock_stdGrid_7_second:
  "\<exists>w'. drawBlock \<lparr>R = Fin 20, X = Fin 0\<rparr> \<lparr>R = Fin 50, X = Fin 20\<rparr> (Fin 10) 3 w = Some w'
     \<and> line_widths (calls (cr w')) = line_widths (calls (cr w)) @
          [STROKE_WIDTH_MINOR, STROKE_WIDTH_MINOR, STROKE_WIDTH_MAJOR,
           STROKE_WIDTH_MINOR, STROKE_WIDTH_MINOR]"
  by (simp add: drawBlock_def for_gdouble.simps tick_line_width_def seq_Nil seq_Cons)

lemma widths_differ: "STROKE_WIDTH_MINOR \<noteq> STROKE_WIDTH_MAJOR"
  by (simp add: STROKE_WIDTH_MINOR_def STROKE_WIDTH_MAJOR_def SMITH_RADIUS_def)

lemma drawZone_stdGrid_7_widths:
  "\<exists>w'. drawZone stdGrid 7 w = Some w'
     \<and> line_widths (calls (cr w')) = line_widths (calls (cr w)) @
          [STROKE_WIDTH_MINOR, STROKE_WIDTH_MINOR, STROKE_WIDTH_MINOR, STROKE_WIDTH_MINOR,
           STROKE_WIDTH_MAJOR, STROKE_WIDTH_MINOR, STROKE_WIDTH_MINOR, STROKE_WIDTH_MINOR,
           STROKE_WIDTH_MINOR, STROKE_WIDTH_MINOR, STROKE_WIDTH_MAJOR,
           STROKE_WIDTH_MINOR, STROKE_WIDTH_MINOR]"
proof -
  obtain w1 where 1: "drawBlock \<lparr>R = Fin 0, X = Fin 20\<rparr> \<lparr>R = Fin 50, X = Fin 50\<rparr> (Fin 10) 5 w = Some w1"
    and l1: "line_widths (calls (cr w1)) = line_widths (calls (cr w)) @
          [STROKE_WIDTH_MINOR, STROKE_WIDTH_MINOR, STROKE_WIDTH_MINOR, STROKE_WIDTH_MINOR,
           STROKE_WIDTH_MAJOR, STROKE_WIDTH_MINOR, STROKE_WIDTH_MINOR, STROKE_WIDTH_MINOR]"
    using drawBlock_stdGrid_7_first [of w] by blast
  obtain w2 where 2: "drawBlock \<lparr>R = Fin 20, X = Fin 0\<rparr> \<lparr>R = Fin 50, X = Fin 20\<rparr> (Fin 10) 3 w1 = Some w2"
    and l2: "line_widths (calls (cr w2)) = line_widths (calls (cr w1)) @
          [STROKE_WIDTH_MINOR, STROKE_WIDTH_MINOR, STROKE_WIDTH_MAJOR,
           STROKE_WIDTH_MINOR, STROKE_WIDTH_MINOR]"
    using drawBlock_stdGrid_7_second [of w1] by blast
  have "drawZone stdGrid 7 w = Some w2"
    by (simp add: drawZone_7 stdGrid_7 zone_def SPECIAL_CASE_def 1 2)
  then show ?thesis
    by (simp add: l1 l2)
qed

text \<open>
  Claim C7, as amended. At table index 7 the grid renderer draws the first
  block of the band, from \<open>(0, region)\<close> to \<open>(next, next)\<close>, with the
  \<open>minorPerMajorDiv\<close> stored in the table, and only then overrides the
  ticks-per-major to 3, whatever the table holds, for the second block, from
  \<open>(region, 0)\<close> to \<open>(next, region)\<close>. In that second block the major-weight
  strokes fall on every third minor step: with the standard table its
  resistance arcs at 30, 40 and 50 are minor, minor, major.
\<close>

theorem band_7_ticks_per_major:
  "(8 < length zones \<and> minorPerMajorDiv (zones ! 7) \<noteq> SPECIAL_CASE \<longrightarrow>
      drawZone zones 7 w =
        do {
          w \<leftarrow> drawBlock \<lparr>R = Fin 0, X = region (zones ! 7)\<rparr>
                 \<lparr>R = region (zones ! 8), X = region (zones ! 8)\<rparr>
                 (minorDiv (zones ! 7)) (minorPerMajorDiv (zones ! 7)) w;
          drawBlock \<lparr>R = region (zones ! 7), X = Fin 0\<rparr>
            \<lparr>R = region (zones ! 8), X = region (zones ! 7)\<rparr>
            (minorDiv (zones ! 7)) 3 w
        })
   \<and> (\<exists>w'. drawBlock \<lparr>R = Fin 20, X = Fin 0\<rparr> \<lparr>R = Fin 50, X = Fin 20\<rparr> (Fin 10) 3 w = Some w'
         \<and> line_widths (calls (cr w')) = line_widths (calls (cr w)) @
              [STROKE_WIDTH_MINOR, STROKE_WIDTH_MINOR, STROKE_WIDTH_MAJOR,
               STROKE_WIDTH_MINOR, STROKE_WIDTH_MINOR])"
  using drawZone_7 [of zones w] drawBlock_stdGrid_7_second [of w] by blast

theorem band_7_ticks_per_major_witness:
  "8 < length stdGrid \<and> minorPerMajorDiv (stdGrid ! 7) \<noteq> SPECIAL_CASE
   \<and> drawZone stdGrid 7 initial_world =
        do {
          w \<leftarrow> drawBlock \<lparr>R = Fin 0, X = region (stdGrid ! 7)\<rparr>
                 \<lparr>R = region (stdGrid ! 8), X = region (stdGrid ! 8)\<rparr>
                 (minorDiv (stdGrid ! 7)) (minorPerMajorDiv (stdGrid ! 7)) initial_world;
          drawBlock \<lparr>R = region (stdGrid ! 7), X = Fin 0\<rparr>
            \<lparr>R = region (stdGrid ! 8), X = region (stdGrid ! 7)\<rparr>
            (minorDiv (stdGrid ! 7)) 3 w
        }"
proof -
  have h: "8 < length stdGrid \<and> minorPerMajorDiv (stdGrid ! 7) \<noteq> SPECIAL_CASE"
    by (simp add: stdGrid_7 zone_def SPECIAL_CASE_def)
  from band_7_ticks_per_major [of stdGrid initial_world] h show ?thesis
    by blast
qed

text \<open>
  The band as a whole is not drawn with three ticks per major. With the
  standard table the first block of band 7 has five resistance arcs, of which
  the fifth and not the third is major, and three reactance arcs, all minor.
\<close>

theorem band_7_ticks_per_major_counterexample:
  "drawZone stdGrid 7 initial_world \<noteq>
     do {
       w \<leftarrow> drawBlock \<lparr>R = Fin 0, X = Fin 20\<rparr> \<lparr>R = Fin 50, X = Fin 50\<rparr> (Fin 10) 3 initial_world;
       drawBlock \<lparr>R = Fin 20, X = Fin 0\<rparr> \<lparr>R = Fin 50, X = Fin 20\<rparr> (Fin 10) 3 w
     }
   \<and> map_option (\<lambda>w. line_widths (calls (cr w))) (drawZone stdGrid 7 initial_world) =
       Some [STROKE_WIDTH_MINOR, STROKE_WIDTH_MINOR, STROKE_WIDTH_MINOR, STROKE_WIDTH_MINOR,
             STROKE_WIDTH_MAJOR, STROKE_WIDTH_MINOR, STROKE_WIDTH_MINOR, STROKE_WIDTH_MINOR,
             STROKE_WIDTH_MINOR, STROKE_WIDTH_MINOR, STROKE_WIDTH_MAJOR,
             STROKE_WIDTH_MINOR, STROKE_WIDTH_MINOR]"
proof -
  have init: "line_widths (calls (cr initial_world)) = []"
    by (simp add: initial_world_def)
  obtain wa where a: "drawZone stdGrid 7 initial_world = Some wa"
    and la: "line_widths (calls (cr wa)) =
          [STROKE_WIDTH_MINOR, STROKE_WIDTH_MINOR, STROKE_WIDTH_MINOR, STROKE_WIDTH_MINOR,
           STROKE_WIDTH_MAJOR, STROKE_WIDTH_MINOR, STROKE_WIDTH_MINOR, STROKE_WIDTH_MINOR,
           STROKE_WIDTH_MINOR, STROKE_WIDTH_MINOR, STROKE_WIDTH_MAJOR,
           STROKE_WIDTH_MINOR, STROKE_WIDTH_MINOR]"
    using drawZone_stdGrid_7_widths [of initial_world] by (auto simp: init)
  obtain w1 where 1: "drawBlock \<lparr>R = Fin 0, X = Fin 20\<rparr> \<lparr>R = Fin 50, X = Fin 50\<rparr> (Fin 10) 3 initial_world = Some w1"
    and l1: "line_widths (calls (cr w1)) =
          [STROKE_WIDTH_MINOR, STROKE_WIDTH_MINOR, STROKE_WIDTH_MAJOR, STROKE_WIDTH_MINOR,
           STROKE_WIDTH_MINOR, STROKE_WIDTH_MINOR, STROKE_WIDTH_MINOR, STROKE_WIDTH_MAJOR]"
    using drawBlock_stdGrid_7_first_3 [of initial_world] by (auto simp: init)
  obtain w2 where 2: "drawBlock \<lparr>R = Fin 20, X = Fin 0\<rparr> \<lparr>R = Fin 50, X = Fin 20\<rparr> (Fin 10) 3 w1 = Some w2"
    and l2: "line_widths (calls (cr w2)) = line_widths (calls (cr w1)) @
          [STROKE_WIDTH_MINOR, STROKE_WIDTH_MINOR, STROKE_WIDTH_MAJOR,
           STROKE_WIDTH_MINOR, STROKE_WIDTH_MINOR]"
    using drawBlock_stdGrid_7_second [of w1] by blast
  have "line_widths (calls (cr wa)) \<noteq> line_widths (calls (cr w2))"
    using widths_differ by (simp add: la l1 l2)
  then have "wa \<noteq> w2" by auto
  then show ?thesis
    by (simp add: a 1 2 la)
qed

section \<open>Properties of the options memory\<close>

text \<open>The helpers that always return leave every option structure as it was.\<close>

lemma options_seq [simp]:
  "list_all (\<lambda>f. \<forall>w. options (f w) = options w) fs \<Longrightarrow> options (seq fs w) = options w"
  unfolding seq_def by (induction fs arbitrary: w) simp_all

lemma options_foreach [simp]:
  "\<forall>x w. options (body x w) = options w \<Longrightarrow> options (foreach xs body w) = options w"
  unfolding foreach_def by (induction xs arbitrary: w) simp_all

lemma options_set_source_color [simp]: "options (set_source_color c w) = options w"
  by (simp add: set_source_color_def)

lemma options_removeFontHinting [simp]: "options (removeFontHinting w) = options w"
  by (simp add: removeFontHinting_def)

lemma options_setCairoFontSize [simp]: "options (setCairoFontSize fSize w) = options w"
  by (simp add: setCairoFontSize_def)

lemma options_leftJustifiedClearText [simp]:
  "options (leftJustifiedClearText sLabel x y w) = options w"
  by (simp add: leftJustifiedClearText_def Let_def)

lemma options_rightJustifiedClearText [simp]:
  "options (rightJustifiedClearText sLabel x y w) = options w"
  by (simp add: rightJustifiedClearText_def Let_def)

lemma options_centreJustifiedCairoText [simp]:
  "options (centreJustifiedCairoText sLabel x y w) = options w"
  by (simp add: centreJustifiedCairoText_def)

lemma options_drawArc [simp]: "options (drawArc uv radius a1 a2 w) = options w"
  by (simp add: drawArc_def)

lemma options_drawRarc [simp]: "options (drawRarc rArc xFrom xTo w) = options w"
  by (simp add: drawRarc_def Let_def)

lemma options_drawXarc [simp]: "options (drawXarc xArc rFrom rTo w) = options w"
  by (simp add: drawXarc_def Let_def)

lemma options_circleChar [simp]: "options (circleChar radius c w) = options w"
  by (simp add: circleChar_def Let_def)

lemma options_circleCairoText [simp]:
  "options (circleCairoText sLabel radius ang centerX centerY w) = options w"
  by (simp add: circleCairoText_def Let_def)

lemma options_drawLabel_rim [simp]: "options (drawLabel_rim labelMargin l w) = options w"
  by (simp add: drawLabel_rim_def Let_def)

lemma options_drawLabel_unit [simp]: "options (drawLabel_unit labelMargin l w) = options w"
  by (simp add: drawLabel_unit_def Let_def)

lemma options_drawLabels [simp]: "options (drawLabels pOptions w) = options w"
  by (simp add: drawLabels_def Let_def)

lemma options_drawRXgridText [simp]: "options (drawRXgridText areas pOptions w) = options w"
  by (simp add: drawRXgridText_def Let_def)

lemma options_drawGBgridText [simp]: "options (drawGBgridText areas pOptions w) = options w"
  by (simp add: drawGBgridText_def Let_def)

lemma options_drawCurvedArrow [simp]:
  "options (drawCurvedArrow radius startAngle stopAngle w) = options w"
  by (simp add: drawCurvedArrow_def Let_def)

lemma options_wavelengthTick [simp]: "options (wavelengthTick lstep ix w) = options w"
  by (simp add: wavelengthTick_def Let_def)

lemma options_drawWavelengthRing [simp]: "options (drawWavelengthRing pOptions w) = options w"
  by (simp add: drawWavelengthRing_def)

lemma options_printNormalToRadial [simp]:
  "options (printNormalToRadial radialAngle radialDistance sLabel w) = options w"
  by (simp add: printNormalToRadial_def)

lemma options_angleTick [simp]: "options (angleTick deg w) = options w"
  by (simp add: angleTick_def Let_def)

lemma options_drawAngleRing [simp]: "options (drawAngleRing pOptions w) = options w"
  by (simp add: drawAngleRing_def)

lemma options_drawLineOnSmithChart [simp]:
  "options (drawLineOnSmithChart uvFrom uvTo pOptions w) = options w"
  by (simp add: drawLineOnSmithChart_def Let_def)

lemma options_drawPointOnSmithChart [simp]:
  "options (drawPointOnSmithChart uvPoint pOptions w) = options w"
  by (simp add: drawPointOnSmithChart_def Let_def)

lemma options_annotatePointOnSmithChart [simp]:
  "options (annotatePointOnSmithChart sLabel uv bLeft pOptions w) = options w"
  by (simp add: annotatePointOnSmithChart_def Let_def)

text \<open>Loops that return, and leave the option structures alone.\<close>

lemma for_gdouble_returns:
  assumes inc: "0 < inc"
    and body: "\<And>v t w. \<exists>w'. body v t w = Some w' \<and> options w' = options w"
  shows "\<exists>w'. for_gdouble body (Fin b) (Fin inc) (Fin v) ticks w = Some w' \<and> options w' = options w"
proof -
  have "b - v < real k * inc \<Longrightarrow>
          \<exists>w'. for_gdouble body (Fin b) (Fin inc) (Fin v) ticks w = Some w' \<and> options w' = options w"
    for k
  proof (induction k arbitrary: v ticks w)
    case 0
    then have "\<not> v \<le> b" by simp
    then show ?case by (subst for_gdouble.simps) simp
  next
    case (Suc k)
    show ?case
    proof (cases "v \<le> b")
      case False
      then show ?thesis by (subst for_gdouble.simps) simp
    next
      case True
      obtain w1 where w1: "body (Fin v) ticks w = Some w1" "options w1 = options w"
        using body by blast
      have "b - (v + inc) < real k * inc"
        using Suc.prems by (simp add: algebra_simps)
      from Suc.IH [OF this, of "ticks + 1" w1]
      obtain w' where "for_gdouble body (Fin b) (Fin inc) (Fin (v + inc)) (ticks + 1) w1 = Some w'"
        "options w' = options w1" by blast
      then show ?thesis
        using True w1 by (subst for_gdouble.simps) simp
    qed
  qed
  moreover have "\<exists>k. b - v < real k * inc"
  proof -
    obtain k :: nat where "(b - v) / inc < real k"
      using reals_Archimedean2 by blast
    then have "b - v < real k * inc"
      using inc by (simp add: pos_divide_less_eq)
    then show ?thesis ..
  qed
  ultimately show ?thesis by blast
qed

lemma tick_line_width_returns:
  "minorPerMajor \<noteq> 0 \<Longrightarrow>
     \<exists>w'. tick_line_width ticks minorPerMajor w = Some w' \<and> options w' = options w"
  by (simp add: tick_line_width_def)

lemma drawBlock_returns:
  assumes "0 < d" "minorPerMajor \<noteq> 0"
  shows "\<exists>w'. drawBlock \<lparr>R = Fin a, X = Fin b\<rparr> \<lparr>R = Fin c, X = Fin e\<rparr> (Fin d) minorPerMajor w = Some w'
           \<and> options w' = options w"
proof -
  have r: "\<exists>w'. (do { w \<leftarrow> tick_line_width t minorPerMajor w;
                       Some (seq [ drawRarc v (Fin e) (Fin b),
                                   drawRarc v (- Fin b) (- Fin e) ] w) }) = Some w'
             \<and> options w' = options w" for v t w
    using tick_line_width_returns [OF assms(2), of t w] by auto
  have x: "\<exists>w'. (do { w \<leftarrow> tick_line_width t minorPerMajor w;
                       Some (seq [ drawXarc v (Fin a) (Fin c),
                                   drawXarc (- v) (Fin c) (Fin a) ] w) }) = Some w'
             \<and> options w' = options w" for v t w
    using tick_line_width_returns [OF assms(2), of t w] by auto
  have half: "0 < d / 2" using assms(1) by simp
  obtain w1 where w1:
    "for_gdouble (\<lambda>r rticks w. do { w \<leftarrow> tick_line_width rticks minorPerMajor w;
                       Some (seq [ drawRarc r (Fin e) (Fin b),
                                   drawRarc r (- Fin b) (- Fin e) ] w) })
       (Fin (c + d / 2)) (Fin d) (Fin (a + d)) 1 w = Some w1" "options w1 = options w"
    using for_gdouble_returns [OF assms(1), where body = "\<lambda>r rticks w. do { w \<leftarrow> tick_line_width rticks minorPerMajor w;
                       Some (seq [ drawRarc r (Fin e) (Fin b),
                                   drawRarc r (- Fin b) (- Fin e) ] w) }", OF r]
    by blast
  obtain w2 where w2:
    "for_gdouble (\<lambda>x xticks w. do { w \<leftarrow> tick_line_width xticks minorPerMajor w;
                       Some (seq [ drawXarc x (Fin a) (Fin c),
                                   drawXarc (- x) (Fin c) (Fin a) ] w) })
       (Fin (e + d / 2)) (Fin d) (Fin (b + d)) 1 w1 = Some w2" "options w2 = options w1"
    using for_gdouble_returns [OF assms(1), where body = "\<lambda>x xticks w. do { w \<leftarrow> tick_line_width xticks minorPerMajor w;
                       Some (seq [ drawXarc x (Fin a) (Fin c),
                                   drawXarc (- x) (Fin c) (Fin a) ] w) }", OF x]
    by blast
  show ?thesis
    using w1 w2 by (simp add: drawBlock_def)
qed

lemma drawZone_returns:
  assumes "index + 1 < length zones" "zones ! index = zone b d n"
    "zones ! (index + 1) = zone b' d' n'" "0 < d"
  shows "\<exists>w'. drawZone zones index w = Some w' \<and> options w' = options w"
proof (cases "n = SPECIAL_CASE")
  case True
  then show ?thesis
    using assms by (simp add: drawZone_def zone_def Let_def)
next
  case False
  then have n: "n \<noteq> 0" by (simp add: SPECIAL_CASE_def)
  obtain w1 where w1:
    "drawBlock \<lparr>R = Fin 0, X = Fin b\<rparr> \<lparr>R = Fin b', X = Fin b'\<rparr> (Fin d) n w = Some w1"
    "options w1 = options w"
    using drawBlock_returns [OF assms(4) n] by blast
  have n': "(if index = 7 then 3 else n) \<noteq> 0" using n by simp
  obtain w2 where w2:
    "drawBlock \<lparr>R = Fin b, X = Fin 0\<rparr> \<lparr>R = Fin b', X = Fin b\<rparr> (Fin d)
       (if index = 7 then 3 else n) w1 = Some w2"
    "options w2 = options w1"
    using drawBlock_returns [OF assms(4) n'] by blast
  show ?thesis
    using assms(1-3) False w1 w2 by (simp add: drawZone_def zone_def Let_def)
qed

lemma drawZones_returns:
  assumes "k < length zones" "minorPerMajorDiv (zones ! k) = END"
    and good: "\<And>j. j < k \<Longrightarrow>
                 \<exists>b d n b' d' n'. zones ! j = zone b d n \<and> zones ! (j + 1) = zone b' d' n' \<and> 0 < d"
    and "index \<le> k"
  shows "\<exists>w'. drawZones zones index w = Some w' \<and> options w' = options w"
  using \<open>index \<le> k\<close>
proof (induction "k - index" arbitrary: index w)
  case 0
  then have "index = k" by simp
  then show ?case
    using assms(1,2) by (subst drawZones.simps) simp
next
  case (Suc m)
  then have lt: "index < k" by simp
  show ?case
  proof (cases "minorPerMajorDiv (zones ! index) = END")
    case True
    then show ?thesis
      using lt assms(1) by (subst drawZones.simps) simp
  next
    case False
    obtain b d n b' d' n' where z: "zones ! index = zone b d n"
      "zones ! (index + 1) = zone b' d' n'" "0 < d"
      using good [OF lt] by blast
    have "index + 1 < length zones" using lt assms(1) by simp
    from drawZone_returns [OF this z]
    obtain w1 where w1: "drawZone zones index w = Some w1" "options w1 = options w"
      by blast
    have "m = k - (index + 1)" "index + 1 \<le> k" using Suc.hyps(2) lt by simp_all
    from Suc.hyps(1) [OF this]
    obtain w' where "drawZones zones (index + 1) w1 = Some w'" "options w' = options w1"
      by blast
    then show ?thesis
      using False lt assms(1) w1 by (subst drawZones.simps) simp
  qed
qed

lemma below_8: "j < 8 \<Longrightarrow> j = 0 \<or> j = 1 \<or> j = 2 \<or> j = 3 \<or> j = 4 \<or> j = 5 \<or> j = 6 \<or> j = (7::nat)"
  by arith

lemma below_6: "j < 6 \<Longrightarrow> j = 0 \<or> j = 1 \<or> j = 2 \<or> j = 3 \<or> j = 4 \<or> j = (5::nat)"
  by arith

lemma stdGrid_good:
  assumes "j < 8"
  shows "\<exists>b d n b' d' n'. stdGrid ! j = zone b d n \<and> stdGrid ! (j + 1) = zone b' d' n' \<and> 0 < d"
  using below_8 [OF assms]
  by (elim disjE) (simp_all add: stdGrid_def, (intro exI conjI, rule refl, rule refl, simp)+)

lemma sparseGrid_good:
  assumes "j < 6"
  shows "\<exists>b d n b' d' n'. sparseGrid ! j = zone b d n \<and> sparseGrid ! (j + 1) = zone b' d' n' \<and> 0 < d"
  using below_6 [OF assms]
  by (elim disjE) (simp_all add: sparseGrid_def, (intro exI conjI, rule refl, rule refl, simp)+)

lemma drawZones_tables:
  "\<exists>w'. drawZones (elements stdGrid_array) 0 w = Some w' \<and> options w' = options w"
  "\<exists>w'. drawZones (elements sparseGrid_array) 0 w = Some w' \<and> options w' = options w"
proof -
  show "\<exists>w'. drawZones (elements stdGrid_array) 0 w = Some w' \<and> options w' = options w"
    unfolding elements.simps
    by (rule drawZones_returns [where k = 8, OF _ _ stdGrid_good])
      (simp_all add: stdGrid_def zone_def)
  show "\<exists>w'. drawZones (elements sparseGrid_array) 0 w = Some w' \<and> options w' = options w"
    unfolding elements.simps
    by (rule drawZones_returns [where k = 6, OF _ _ sparseGrid_good])
      (simp_all add: sparseGrid_def zone_def)
qed

lemma drawImmittanceGrid_returns:
  assumes "zones = stdGrid_array \<or> zones = sparseGrid_array"
  shows "\<exists>w'. drawImmittanceGrid zones pOptions w = Some w' \<and> options w' = options w"
proof -
  obtain w1 where "drawZones (elements zones) 0 w = Some w1" "options w1 = options w"
    using assms drawZones_tables [of w] by blast
  then show ?thesis
    by (simp add: drawImmittanceGrid_def)
qed

lemma drawRXgrid_returns:
  assumes "areas = stdGrid_array \<or> areas = sparseGrid_array"
  shows "\<exists>w'. drawRXgrid areas pOptions w = Some w' \<and> options w' = options w"
proof -
  define w0 where "w0 = seq [ cairo_save,
                     (\<lambda>w. set_source_color (colorRXgrid (options w pOptions)) w) ] w"
  have 0: "options w0 = options w" by (simp add: w0_def)
  obtain w1 where "drawImmittanceGrid areas pOptions w0 = Some w1" "options w1 = options w0"
    using drawImmittanceGrid_returns [OF assms] by blast
  then show ?thesis
    using 0 by (simp add: drawRXgrid_def w0_def [symmetric])
qed

lemma drawGBgrid_returns:
  assumes "areas = stdGrid_array \<or> areas = sparseGrid_array"
  shows "\<exists>w'. drawGBgrid areas pOptions w = Some w' \<and> options w' = options w"
proof -
  define w0 where "w0 = seq [ cairo_save,
                     (\<lambda>w. set_source_color (colorGBgrid (options w pOptions)) w),
                     cairo_rotate M_PI ] w"
  have 0: "options w0 = options w" by (simp add: w0_def)
  obtain w1 where "drawImmittanceGrid areas pOptions w0 = Some w1" "options w1 = options w0"
    using drawImmittanceGrid_returns [OF assms] by blast
  then show ?thesis
    using 0 by (simp add: drawGBgrid_def w0_def [symmetric])
qed

lemma drawSmithChart_returns:
  "\<exists>w'. drawSmithChart centerX centerY radius pOptions w = Some w'
     \<and> options w' = (options w)
          (or_default pOptions :=
             (options w (or_default pOptions)) \<lparr> matrix := matrix (options w' (or_default pOptions)) \<rparr>)"
proof -
  define p where "p = or_default pOptions"
  define radius' where
    "radius' = (if bDrawRing (flags (options w p))
                then radius / (OUTER_BOUNDARY_WITH_RING / SMITH_RADIUS) else radius)"
  define w0 where
    "w0 = seq [ cairo_save, removeFontHinting, cairo_translate centerX centerY,
                cairo_scale radius' (- radius'), cairo_select_font_face LABEL_FONT,
                setCairoFontSize LABELFONTSIZE ] w"
  have o0: "options w0 = options w" by (simp add: w0_def)
  have tab: "(if bSparceGB (flags (options w0 p)) then sparseGrid_array else stdGrid_array)
                = stdGrid_array
             \<or> (if bSparceGB (flags (options w0 p)) then sparseGrid_array else stdGrid_array)
                = sparseGrid_array"
    by simp
  obtain w1 where w1:
    "(if bShowGB (flags (options w0 p))
      then drawGBgrid (if bSparceGB (flags (options w0 p))
                       then sparseGrid_array else stdGrid_array) p w0
      else Some w0) = Some w1" and o1: "options w1 = options w0"
    using drawGBgrid_returns [OF tab, of p w0]
    by (cases "bShowGB (flags (options w0 p))") auto
  obtain w2 where w2:
    "(if bShowRX (flags (options w1 p)) then drawRXgrid stdGrid_array p w1 else Some w1) = Some w2"
    and o2: "options w2 = options w1"
    using drawRXgrid_returns [of stdGrid_array p w1]
    by (cases "bShowRX (flags (options w1 p))") auto
  define w3 where
    "w3 = (if bShowRX (flags (options w2 p)) then drawRXgridText stdGrid_array p w2 else w2)"
  have o3: "options w3 = options w2" by (simp add: w3_def)
  define w4 where
    "w4 = (if bShowGB (flags (options w3 p))
           then drawGBgridText (if bSparceGB (flags (options w3 p))
                                then sparseGrid_array else stdGrid_array) p w3
           else w3)"
  have o4: "options w4 = options w3" by (simp add: w4_def)
  define w5 where
    "w5 = (if bDrawRing (flags (options w4 p))
           then seq [ (\<lambda>w. set_source_color (colorRing (options w p)) w),
                      drawWavelengthRing p, drawAngleRing p ] w4
           else w4)"
  have o5: "options w5 = options w4" by (simp add: w5_def)
  define w6 where
    "w6 = w5 \<lparr> options := (options w5) (p := (options w5 p) \<lparr> matrix := cairo_get_matrix w5 \<rparr>) \<rparr>"
  have run: "drawSmithChart centerX centerY radius pOptions w = Some (cairo_restore w6)"
    unfolding drawSmithChart_def p_def [symmetric] Let_def radius'_def [symmetric]
      w0_def [symmetric]
    by (simp add: w1 w2 w3_def w4_def w5_def w6_def)
  have "options (cairo_restore w6) = (options w) (p := (options w p) \<lparr> matrix := cairo_get_matrix w5 \<rparr>)"
    by (simp add: w6_def o5 o4 o3 o2 o1 o0)
  then have "options (cairo_restore w6)
               = (options w) (p := (options w p) \<lparr> matrix := matrix (options (cairo_restore w6) p) \<rparr>)"
    by simp
  then show ?thesis
    using run unfolding p_def by blast
qed

text \<open>
  Every call a helper makes is added after the calls the sink already has.
\<close>

lemma prefix_cairo [simp]: "prefix (calls (cr w)) (calls (cr (cairo c w)))"
  by (simp add: cairo_def)

lemma prefix_seq [simp]:
  "list_all (\<lambda>f. \<forall>w. prefix (calls (cr w)) (calls (cr (f w)))) fs
     \<Longrightarrow> prefix (calls (cr w)) (calls (cr (seq fs w)))"
  unfolding seq_def
proof (induction fs arbitrary: w)
  case Nil
  then show ?case by simp
next
  case (Cons f fs)
  have "prefix (calls (cr w)) (calls (cr (f w)))" using Cons.prems by simp
  moreover have "prefix (calls (cr (f w))) (calls (cr (fold (\<lambda>f. f) fs (f w))))"
    using Cons.prems by (intro Cons.IH) simp
  ultimately show ?case by (auto intro: prefix_order.trans)
qed

lemma prefix_set_source_color [simp]:
  "prefix (calls (cr w)) (calls (cr (set_source_color c w)))"
  by (simp add: set_source_color_def)

lemma prefix_setCairoFontSize [simp]:
  "prefix (calls (cr w)) (calls (cr (setCairoFontSize fSize w)))"
  by (simp add: setCairoFontSize_def)

lemma prefix_leftJustifiedClearText [simp]:
  "prefix (calls (cr w)) (calls (cr (leftJustifiedClearText sLabel x y w)))"
  by (simp add: leftJustifiedClearText_def Let_def)

lemma prefix_rightJustifiedClearText [simp]:
  "prefix (calls (cr w)) (calls (cr (rightJustifiedClearText sLabel x y w)))"
  by (simp add: rightJustifiedClearText_def Let_def)

lemma after_save_set_matrix:
  assumes "list_all (\<lambda>f. \<forall>w. prefix (calls (cr w)) (calls (cr (f w)))) fs"
  shows "\<exists>rest. calls (cr (seq (cairo_save # (\<lambda>w. cairo_set_matrix (matrix (options w p)) w) # fs) w))
           = calls (cr w) @ Save # SetMatrix (matrix (options w p)) # rest"
proof -
  define w1 where "w1 = cairo_set_matrix (matrix (options w p)) (cairo_save w)"
  have 1: "calls (cr w1) = calls (cr w) @ [Save, SetMatrix (matrix (options w p))]"
    by (simp add: w1_def)
  have s: "seq (cairo_save # (\<lambda>w. cairo_set_matrix (matrix (options w p)) w) # fs) w = seq fs w1"
    by (simp add: seq_Cons w1_def)
  have "prefix (calls (cr w1)) (calls (cr (seq fs w1)))"
    using assms by simp
  then obtain rest where "calls (cr (seq fs w1)) = calls (cr w1) @ rest"
    by (auto simp: prefix_def)
  then have "calls (cr (seq fs w1)) = calls (cr w) @ Save # SetMatrix (matrix (options w p)) # rest"
    by (simp add: 1)
  then show ?thesis
    unfolding s by blast
qed

lemma foreach_opt_keeps:
  assumes body: "\<And>x w w'. body x w = Some w' \<Longrightarrow>
                   options w' = options w \<and> prefix (calls (cr w)) (calls (cr w'))"
    and "foreach_opt xs body w = Some w'"
  shows "options w' = options w \<and> prefix (calls (cr w)) (calls (cr w'))"
  using assms(2)
proof (induction xs arbitrary: w)
  case Nil
  then show ?case by simp
next
  case (Cons x xs)
  then obtain w1 where 1: "body x w = Some w1" and 2: "foreach_opt xs body w1 = Some w'"
    by (auto split: Option.bind_splits)
  from body [OF 1] Cons.IH [OF 2] show ?case
    by (auto intro: prefix_order.trans)
qed

lemma bezierSegment_keeps:
  assumes "bezierSegment uvPoints n i w = Some w'"
  shows "options w' = options w \<and> prefix (calls (cr w)) (calls (cr w'))"
  using assms
  by (auto simp: bezierSegment_def Let_def case_prod_beta split: Option.bind_splits)

lemma line_point_keeps:
  assumes "(if i = 0
            then do { p \<leftarrow> element uvPoints 0; Some (cairo_move_to (U p) (V p) w) }
            else do { p \<leftarrow> element uvPoints i; Some (cairo_line_to (U p) (V p) w) }) = Some w'"
  shows "options w' = options w \<and> prefix (calls (cr w)) (calls (cr w'))"
  using assms by (auto split: Option.bind_splits if_splits)

lemma drawBezierCurveOnSmithChart_keeps:
  assumes "drawBezierCurveOnSmithChart uvPoints n pOptions w = Some w'"
  shows "options w' = options w
         \<and> (\<exists>rest. calls (cr w') = calls (cr w)
               @ Save # SetMatrix (matrix (options w (or_default pOptions))) # rest)"
proof -
  define p where "p = or_default pOptions"
  define w0 where
    "w0 = seq [ cairo_save,
                (\<lambda>w. cairo_set_matrix (matrix (options w p)) w),
                (\<lambda>w. cairo_set_line_width (SRpct (lineWidth (options w p))) w),
                (\<lambda>w. set_source_color (colorLine (options w p)) w),
                cairo_new_path ] w"
  have o0: "options w0 = options w" by (simp add: w0_def)
  obtain r0 where c0: "calls (cr w0) = calls (cr w) @ Save # SetMatrix (matrix (options w p)) # r0"
    unfolding w0_def using after_save_set_matrix [of _ p w] by force
  have run: "drawBezierCurveOnSmithChart uvPoints n pOptions w =
      do {
        p0 \<leftarrow> element uvPoints 0;
        w \<leftarrow> foreach_opt [1..n - 1] (bezierSegment uvPoints n) (cairo_move_to (U p0) (V p0) w0);
        Some (seq [ cairo_stroke, cairo_restore ] w)
      }"
    unfolding drawBezierCurveOnSmithChart_def p_def [symmetric] Let_def w0_def [symmetric] ..
  obtain p0 where e: "element uvPoints 0 = Some p0"
    using assms unfolding run by (cases "element uvPoints 0") simp_all
  obtain w1 where
    1: "foreach_opt [1..n - 1] (bezierSegment uvPoints n) (cairo_move_to (U p0) (V p0) w0) = Some w1"
    using assms unfolding run e
    by (cases "foreach_opt [1..n - 1] (bezierSegment uvPoints n) (cairo_move_to (U p0) (V p0) w0)")
      simp_all
  have 2: "w' = seq [ cairo_stroke, cairo_restore ] w1"
    using assms unfolding run e by (simp add: 1)
  have "options w1 = options (cairo_move_to (U p0) (V p0) w0)
          \<and> prefix (calls (cr (cairo_move_to (U p0) (V p0) w0))) (calls (cr w1))"
    by (rule foreach_opt_keeps [OF _ 1]) (rule bezierSegment_keeps)
  then have k: "options w1 = options w0" "prefix (calls (cr w0)) (calls (cr w1))"
    by (auto dest: append_prefixD)
  then obtain r1 where "calls (cr w1) = calls (cr w0) @ r1"
    by (auto simp: prefix_def)
  then show ?thesis
    using k(1) o0 c0 by (simp add: 2 seq_Cons seq_Nil p_def)
qed

lemma drawLineArrayOnSmithChart_keeps:
  assumes "drawLineArrayOnSmithChart uvPoints n pOptions w = Some w'"
  shows "options w' = options w
         \<and> (\<exists>rest. calls (cr w') = calls (cr w)
               @ Save # SetMatrix (matrix (options w (or_default pOptions))) # rest)"
proof -
  define p where "p = or_default pOptions"
  define w0 where
    "w0 = seq [ cairo_save,
                (\<lambda>w. cairo_set_matrix (matrix (options w p)) w),
                (\<lambda>w. cairo_set_line_width (SRpct (lineWidth (options w p))) w),
                (\<lambda>w. set_source_color (colorLine (options w p)) w),
                cairo_new_path ] w"
  have o0: "options w0 = options w" by (simp add: w0_def)
  obtain r0 where c0: "calls (cr w0) = calls (cr w) @ Save # SetMatrix (matrix (options w p)) # r0"
    unfolding w0_def using after_save_set_matrix [of _ p w] by force
  from assms have
    "\<exists>w1. foreach_opt [0..n - 1]
          (\<lambda>i w. if i = 0
             then do { p \<leftarrow> element uvPoints 0; Some (cairo_move_to (U p) (V p) w) }
             else do { p \<leftarrow> element uvPoints i; Some (cairo_line_to (U p) (V p) w) }) w0 = Some w1
        \<and> w' = seq [ cairo_stroke, cairo_restore ] w1"
    unfolding drawLineArrayOnSmithChart_def p_def [symmetric] Let_def w0_def [symmetric]
    by (auto split: Option.bind_splits)
  then obtain w1 where
    1: "foreach_opt [0..n - 1]
          (\<lambda>i w. if i = 0
             then do { p \<leftarrow> element uvPoints 0; Some (cairo_move_to (U p) (V p) w) }
             else do { p \<leftarrow> element uvPoints i; Some (cairo_line_to (U p) (V p) w) }) w0 = Some w1"
    and 2: "w' = seq [ cairo_stroke, cairo_restore ] w1"
    by blast
  have "options w1 = options w0 \<and> prefix (calls (cr w0)) (calls (cr w1))"
    by (rule foreach_opt_keeps [OF _ 1]) (rule line_point_keeps)
  then have k: "options w1 = options w0" "prefix (calls (cr w0)) (calls (cr w1))"
    by simp_all
  then obtain r1 where "calls (cr w1) = calls (cr w0) @ r1"
    by (auto simp: prefix_def)
  then show ?thesis
    using k(1) o0 c0 by (simp add: 2 seq_Cons seq_Nil p_def)
qed

lemma drawLineOnSmithChart_calls:
  "\<exists>rest. calls (cr (drawLineOnSmithChart uvFrom uvTo pOptions w))
     = calls (cr w) @ Save # SetMatrix (matrix (options w (or_default pOptions))) # rest"
  unfolding drawLineOnSmithChart_def Let_def
  by (rule after_save_set_matrix) simp

lemma drawPointOnSmithChart_calls:
  "\<exists>rest. calls (cr (drawPointOnSmithChart uvPoint pOptions w))
     = calls (cr w) @ Save # SetMatrix (matrix (options w (or_default pOptions))) # rest"
  unfolding drawPointOnSmithChart_def Let_def
  by (rule after_save_set_matrix) simp

lemma annotatePointOnSmithChart_calls:
  "\<exists>rest. calls (cr (annotatePointOnSmithChart sLabel uv bLeft pOptions w))
     = calls (cr w) @ Save # SetMatrix (matrix (options w (or_default pOptions))) # rest"
  unfolding annotatePointOnSmithChart_def Let_def
  by (rule after_save_set_matrix) simp

text \<open>
  Claim C9. Chart composition returns, and the only thing it changes in the
  option structures is the matrix member of the structure it was given (the
  static default one for a \<open>NULL\<close> pointer): every other member of it, and
  every other structure, is as before. The five other public drawing
  operations change no member of any option structure; each of them, right
  after saving the context, installs the matrix it reads from the structure,
  before any other call to the sink.
\<close>

theorem options_frame:
  "(\<exists>w'. drawSmithChart centerX centerY radius pOptions w = Some w'
      \<and> options w' = (options w)
           (or_default pOptions :=
              (options w (or_default pOptions))
                \<lparr> matrix := matrix (options w' (or_default pOptions)) \<rparr>))
   \<and> (options (drawLineOnSmithChart uvFrom uvTo pOptions w) = options w
      \<and> (\<exists>rest. calls (cr (drawLineOnSmithChart uvFrom uvTo pOptions w))
            = calls (cr w) @ Save # SetMatrix (matrix (options w (or_default pOptions))) # rest))
   \<and> (\<forall>w'. drawLineArrayOnSmithChart uvPoints n pOptions w = Some w' \<longrightarrow>
          options w' = options w
          \<and> (\<exists>rest. calls (cr w')
                = calls (cr w) @ Save # SetMatrix (matrix (options w (or_default pOptions))) # rest))
   \<and> (\<forall>w'. drawBezierCurveOnSmithChart uvPoints n pOptions w = Some w' \<longrightarrow>
          options w' = options w
          \<and> (\<exists>rest. calls (cr w')
                = calls (cr w) @ Save # SetMatrix (matrix (options w (or_default pOptions))) # rest))
   \<and> (options (drawPointOnSmithChart uvPoint pOptions w) = options w
      \<and> (\<exists>rest. calls (cr (drawPointOnSmithChart uvPoint pOptions w))
            = calls (cr w) @ Save # SetMatrix (matrix (options w (or_default pOptions))) # rest))
   \<and> (options (annotatePointOnSmithChart sLabel uv bLeft pOptions w) = options w
      \<and> (\<exists>rest. calls (cr (annotatePointOnSmithChart sLabel uv bLeft pOptions w))
            = calls (cr w) @ Save # SetMatrix (matrix (options w (or_default pOptions))) # rest))"
proof (intro conjI allI impI)
  show "\<exists>w'. drawSmithChart centerX centerY radius pOptions w = Some w'
      \<and> options w' = (options w)
           (or_default pOptions :=
              (options w (or_default pOptions))
                \<lparr> matrix := matrix (options w' (or_default pOptions)) \<rparr>)"
    by (rule drawSmithChart_returns)
  show "options (drawLineOnSmithChart uvFrom uvTo pOptions w) = options w"
    by (rule options_drawLineOnSmithChart)
  show "\<exists>rest. calls (cr (drawLineOnSmithChart uvFrom uvTo pOptions w))
            = calls (cr w) @ Save # SetMatrix (matrix (options w (or_default pOptions))) # rest"
    by (rule drawLineOnSmithChart_calls)
  show "options (drawPointOnSmithChart uvPoint pOptions w) = options w"
    by (rule options_drawPointOnSmithChart)
  show "\<exists>rest. calls (cr (drawPointOnSmithChart uvPoint pOptions w))
            = calls (cr w) @ Save # SetMatrix (matrix (options w (or_default pOptions))) # rest"
    by (rule drawPointOnSmithChart_calls)
  show "options (annotatePointOnSmithChart sLabel uv bLeft pOptions w) = options w"
    by (rule options_annotatePointOnSmithChart)
  show "\<exists>rest. calls (cr (annotatePointOnSmithChart sLabel uv bLeft pOptions w))
            = calls (cr w) @ Save # SetMatrix (matrix (options w (or_default pOptions))) # rest"
    by (rule annotatePointOnSmithChart_calls)
next
  fix w'
  assume "drawLineArrayOnSmithChart uvPoints n pOptions w = Some w'"
  from drawLineArrayOnSmithChart_keeps [OF this]
  show "options w' = options w"
    and "\<exists>rest. calls (cr w')
           = calls (cr w) @ Save # SetMatrix (matrix (options w (or_default pOptions))) # rest"
    by simp_all
next
  fix w'
  assume "drawBezierCurveOnSmithChart uvPoints n pOptions w = Some w'"
  from drawBezierCurveOnSmithChart_keeps [OF this]
  show "options w' = options w"
    and "\<exists>rest. calls (cr w')
           = calls (cr w) @ Save # SetMatrix (matrix (options w (or_default pOptions))) # rest"
    by simp_all
qed

lemma line_array_example:
  "\<exists>w'. drawLineArrayOnSmithChart
          [\<lparr>U = Fin 0, V = Fin 0\<rparr>, \<lparr>U = Fin (1 / 2), V = Fin 0\<rparr>, \<lparr>U = Fin (1 / 2), V = Fin (1 / 2)\<rparr>]
          3 NULL initial_world = Some w'"
  by (simp add: drawLineArrayOnSmithChart_def element_def Let_def upto.simps)

lemma bezier_example:
  "\<exists>w'. drawBezierCurveOnSmithChart
          [\<lparr>U = Fin 0, V = Fin 0\<rparr>, \<lparr>U = Fin (1 / 2), V = Fin 0\<rparr>]
          2 NULL initial_world = Some w'"
  by (simp add: drawBezierCurveOnSmithChart_def bezierSegment_def element_def Let_def
      gint_add_def gint_sub_def gint_wrap_def gint_rem_def
      case_prod_beta)

theorem options_frame_witness:
  "(\<exists>w'. drawLineArrayOnSmithChart
          [\<lparr>U = Fin 0, V = Fin 0\<rparr>, \<lparr>U = Fin (1 / 2), V = Fin 0\<rparr>, \<lparr>U = Fin (1 / 2), V = Fin (1 / 2)\<rparr>]
          3 NULL initial_world = Some w' \<and> options w' = options initial_world)
   \<and> (\<exists>w'. drawBezierCurveOnSmithChart
          [\<lparr>U = Fin 0, V = Fin 0\<rparr>, \<lparr>U = Fin (1 / 2), V = Fin 0\<rparr>]
          2 NULL initial_world = Some w' \<and> options w' = options initial_world)"
proof -
  obtain w1 where 1: "drawLineArrayOnSmithChart
          [\<lparr>U = Fin 0, V = Fin 0\<rparr>, \<lparr>U = Fin (1 / 2), V = Fin 0\<rparr>, \<lparr>U = Fin (1 / 2), V = Fin (1 / 2)\<rparr>]
          3 NULL initial_world = Some w1"
    using line_array_example by blast
  obtain w2 where 2: "drawBezierCurveOnSmithChart
          [\<lparr>U = Fin 0, V = Fin 0\<rparr>, \<lparr>U = Fin (1 / 2), V = Fin 0\<rparr>]
          2 NULL initial_world = Some w2"
    using bezier_example by blast
  from options_frame [of _ _ _ NULL initial_world _ _
      "[\<lparr>U = Fin 0, V = Fin 0\<rparr>, \<lparr>U = Fin (1 / 2), V = Fin 0\<rparr>, \<lparr>U = Fin (1 / 2), V = Fin (1 / 2)\<rparr>]" 3] 1
  have "options w1 = options initial_world" by blast
  moreover
  from options_frame [of _ _ _ NULL initial_world _ _
      "[\<lparr>U = Fin 0, V = Fin 0\<rparr>, \<lparr>U = Fin (1 / 2), V = Fin 0\<rparr>]" 2] 2
  have "options w2 = options initial_world" by blast
  ultimately show ?thesis
    using 1 2 by blast
qed

lemma drawLine_default_calls:
  assumes "options w defaultOptions = defaultOptions_init"
  shows "calls (cr (drawLineOnSmithChart uvFrom uvTo NULL w)) =
           calls (cr w) @
             [ Save, SetMatrix zero_matrix, SetLineWidth (SRpct (Fin 0.25)),
               SetSourceRGBA (Fin 0) (Fin 0) (Fin 0.5) (Fin 1), NewPath,
               MoveTo (U uvFrom) (V uvFrom), LineTo (U uvTo) (V uvTo), Stroke, Restore ]"
  using assms
  by (simp add: drawLineOnSmithChart_def Let_def seq_Cons seq_Nil set_source_color_def
      defaultOptions_init_def rgba_def)

lemma drawPoint_default_calls:
  assumes "options w defaultOptions = defaultOptions_init"
  shows "calls (cr (drawPointOnSmithChart uvPoint NULL w)) =
           calls (cr w) @
             [ Save, SetMatrix zero_matrix, SetLineWidth (Fin 0),
               SetSourceRGBA (Fin 0) (Fin 0) (Fin 0.5) (Fin 1), NewPath,
               Arc (U uvPoint) (V uvPoint) (SRpct (Fin 0.6)) (Fin 0) (Fin 2 * M_PI),
               Fill, Stroke, Restore ]"
  using assms
  by (simp add: drawPointOnSmithChart_def Let_def seq_Cons seq_Nil set_source_color_def
      defaultOptions_init_def rgba_def)

text \<open>
  Claim C10. Each of the six public drawing entry points, called with a
  \<open>NULL\<close> options pointer, does exactly what it does when given the address
  of the static default structure. That structure is initialized with the
  impedance grid and the rings shown, the admittance grid hidden, line width
  0.25, point width 0.6 and the default colours; while it holds these values
  a line or a point drawn through \<open>NULL\<close> is stroked with them.
\<close>

theorem null_options_are_default:
  "drawSmithChart centerX centerY radius NULL w
     = drawSmithChart centerX centerY radius (Ptr defaultOptions) w
   \<and> drawLineOnSmithChart uvFrom uvTo NULL w
     = drawLineOnSmithChart uvFrom uvTo (Ptr defaultOptions) w
   \<and> drawLineArrayOnSmithChart uvPoints n NULL w
     = drawLineArrayOnSmithChart uvPoints n (Ptr defaultOptions) w
   \<and> drawBezierCurveOnSmithChart uvPoints n NULL w
     = drawBezierCurveOnSmithChart uvPoints n (Ptr defaultOptions) w
   \<and> drawPointOnSmithChart uvPoint NULL w
     = drawPointOnSmithChart uvPoint (Ptr defaultOptions) w
   \<and> annotatePointOnSmithChart sLabel uv bLeft NULL w
     = annotatePointOnSmithChart sLabel uv bLeft (Ptr defaultOptions) w
   \<and> bShowRX (flags defaultOptions_init)
   \<and> bDrawRing (flags defaultOptions_init)
   \<and> \<not> bShowGB (flags defaultOptions_init)
   \<and> lineWidth defaultOptions_init = Fin 0.25
   \<and> pointWidth defaultOptions_init = Fin 0.6
   \<and> colorRXgrid defaultOptions_init = rgba 0.7 0.0 0.0 1.0
   \<and> colorGBgrid defaultOptions_init = rgba 0.0 0.5 0.5 1.0
   \<and> colorRXtext defaultOptions_init = rgba 0.5 0.0 0.0 1.0
   \<and> colorGBtext defaultOptions_init = rgba 0.0 0.5 0.5 1.0
   \<and> colorRing defaultOptions_init = rgba 0.0 0.0 0.0 1.0
   \<and> colorLine defaultOptions_init = rgba 0.0 0.0 0.5 1.0
   \<and> colorAnnotation defaultOptions_init = rgba 0.0 0.5 0.0 1.0
   \<and> (options w defaultOptions = defaultOptions_init \<longrightarrow>
        calls (cr (drawLineOnSmithChart uvFrom uvTo NULL w)) =
          calls (cr w) @
            [ Save, SetMatrix zero_matrix, SetLineWidth (SRpct (Fin 0.25)),
              SetSourceRGBA (Fin 0) (Fin 0) (Fin 0.5) (Fin 1), NewPath,
              MoveTo (U uvFrom) (V uvFrom), LineTo (U uvTo) (V uvTo), Stroke, Restore ]
        \<and> calls (cr (drawPointOnSmithChart uvPoint NULL w)) =
          calls (cr w) @
            [ Save, SetMatrix zero_matrix, SetLineWidth (Fin 0),
              SetSourceRGBA (Fin 0) (Fin 0) (Fin 0.5) (Fin 1), NewPath,
              Arc (U uvPoint) (V uvPoint) (SRpct (Fin 0.6)) (Fin 0) (Fin 2 * M_PI),
              Fill, Stroke, Restore ])"
proof -
  have same: "or_default NULL = or_default (Ptr defaultOptions)" by simp
  have 1: "drawSmithChart centerX centerY radius NULL w
     = drawSmithChart centerX centerY radius (Ptr defaultOptions) w"
    by (simp only: drawSmithChart_def same)
  have 2: "drawLineOnSmithChart uvFrom uvTo NULL w
     = drawLineOnSmithChart uvFrom uvTo (Ptr defaultOptions) w"
    by (simp only: drawLineOnSmithChart_def same)
  have 3: "drawLineArrayOnSmithChart uvPoints n NULL w
     = drawLineArrayOnSmithChart uvPoints n (Ptr defaultOptions) w"
    by (simp only: drawLineArrayOnSmithChart_def same)
  have 4: "drawBezierCurveOnSmithChart uvPoints n NULL w
     = drawBezierCurveOnSmithChart uvPoints n (Ptr defaultOptions) w"
    by (simp only: drawBezierCurveOnSmithChart_def same)
  have 5: "drawPointOnSmithChart uvPoint NULL w
     = drawPointOnSmithChart uvPoint (Ptr defaultOptions) w"
    by (simp only: drawPointOnSmithChart_def same)
  have 6: "annotatePointOnSmithChart sLabel uv bLeft NULL w
     = annotatePointOnSmithChart sLabel uv bLeft (Ptr defaultOptions) w"
    by (simp only: annotatePointOnSmithChart_def same)
  have 7: "bShowRX (flags defaultOptions_init)" "bDrawRing (flags defaultOptions_init)"
    "\<not> bShowGB (flags defaultOptions_init)"
    "lineWidth defaultOptions_init = Fin 0.25" "pointWidth defaultOptions_init = Fin 0.6"
    "colorRXgrid defaultOptions_init = rgba 0.7 0.0 0.0 1.0"
    "colorGBgrid defaultOptions_init = rgba 0.0 0.5 0.5 1.0"
    "colorRXtext defaultOptions_init = rgba 0.5 0.0 0.0 1.0"
    "colorGBtext defaultOptions_init = rgba 0.0 0.5 0.5 1.0"
    "colorRing defaultOptions_init = rgba 0.0 0.0 0.0 1.0"
    "colorLine defaultOptions_init = rgba 0.0 0.0 0.5 1.0"
    "colorAnnotation defaultOptions_init = rgba 0.0 0.5 0.0 1.0"
    by (simp_all add: defaultOptions_init_def)
  show ?thesis
    using 1 2 3 4 5 6 7 drawLine_default_calls [of w uvFrom uvTo]
      drawPoint_default_calls [of w uvPoint]
    by (intro conjI impI)
qed

theorem null_options_are_default_witness:
  "options initial_world defaultOptions = defaultOptions_init
   \<and> calls (cr (drawLineOnSmithChart \<lparr>U = Fin 0, V = Fin 0\<rparr> \<lparr>U = Fin (1 / 2), V = Fin 0\<rparr>
         NULL initial_world)) =
        [ Save, SetMatrix zero_matrix, SetLineWidth (SRpct (Fin 0.25)),
          SetSourceRGBA (Fin 0) (Fin 0) (Fin 0.5) (Fin 1), NewPath,
          MoveTo (Fin 0) (Fin 0), LineTo (Fin (1 / 2)) (Fin 0), Stroke, Restore ]"
proof -
  have h: "options initial_world defaultOptions = defaultOptions_init"
    by (simp add: initial_world_def)
  have e: "calls (cr initial_world) = []"
    by (simp add: initial_world_def)
  from null_options_are_default
    [of _ _ _ initial_world "\<lparr>U = Fin 0, V = Fin 0\<rparr>" "\<lparr>U = Fin (1 / 2), V = Fin 0\<rparr>"] h
  have "calls (cr (drawLineOnSmithChart \<lparr>U = Fin 0, V = Fin 0\<rparr> \<lparr>U = Fin (1 / 2), V = Fin 0\<rparr>
         NULL initial_world)) =
        calls (cr initial_world) @
        [ Save, SetMatrix zero_matrix, SetLineWidth (SRpct (Fin 0.25)),
          SetSourceRGBA (Fin 0) (Fin 0) (Fin 0.5) (Fin 1), NewPath,
          MoveTo (U \<lparr>U = Fin 0, V = Fin 0\<rparr>) (V \<lparr>U = Fin 0, V = Fin 0\<rparr>),
          LineTo (U \<lparr>U = Fin (1 / 2), V = Fin 0\<rparr>) (V \<lparr>U = Fin (1 / 2), V = Fin 0\<rparr>),
          Stroke, Restore ]"
    by blast
  then show ?thesis
    using h by (simp add: e)
qed

section \<open>Precondition violations\<close>

text \<open>
  Claim C8, as amended. The library has no error channel. Given \<open>R = -1\<close>,
  \<open>X = 0\<close>, the transform returns a point whose two coordinates are \<open>NaN\<close>.
  Given a sequence of one point, the curve fitter returns after emitting the
  initial move-to and a stroke, with no segment. Given an empty sequence it
  reads \<open>uvPoints[0]\<close> outside the array, which has no defined result.
\<close>

theorem violations_not_signalled:
  "RXtoUV \<lparr>R = Fin (- 1), X = Fin 0\<rparr> = \<lparr>U = NaN, V = NaN\<rparr>
   \<and> (\<exists>w'. drawBezierCurveOnSmithChart [p] 1 pOptions w = Some w'
         \<and> calls (cr w') = calls (cr w) @
             [ Save,
               SetMatrix (matrix (options w (or_default pOptions))),
               SetLineWidth (SRpct (lineWidth (options w (or_default pOptions)))),
               SetSourceRGBA (red (colorLine (options w (or_default pOptions))))
                 (green (colorLine (options w (or_default pOptions))))
                 (blue (colorLine (options w (or_default pOptions))))
                 (alpha (colorLine (options w (or_default pOptions)))),
               NewPath,
               MoveTo (U p) (V p),
               Stroke,
               Restore ])
   \<and> drawBezierCurveOnSmithChart [] 0 pOptions w = None"
  by (simp add: RXtoUV_Fin drawBezierCurveOnSmithChart_def element_def Let_def
      set_source_color_def seq_Nil seq_Cons)

text \<open>
  No invalid-argument condition is signalled: at \<open>R = -1\<close>, \<open>X = 0\<close> the
  transform returns \<open>NaN\<close> coordinates as an ordinary value, and the fitter run
  on one point under the default options returns normally with an empty path.
\<close>

theorem violations_not_signalled_counterexample:
  "RXtoUV \<lparr>R = Fin (- 1), X = Fin 0\<rparr> = \<lparr>U = NaN, V = NaN\<rparr>
   \<and> drawBezierCurveOnSmithChart [\<lparr>U = Fin 0, V = Fin 0\<rparr>] 1 NULL initial_world
       = Some (initial_world \<lparr> cr := (cr initial_world) \<lparr> calls :=
           [ Save, SetMatrix zero_matrix, SetLineWidth (SRpct (Fin 0.25)),
             SetSourceRGBA (Fin 0) (Fin 0) (Fin 0.5) (Fin 1), NewPath,
             MoveTo (Fin 0) (Fin 0), Stroke, Restore ] \<rparr> \<rparr>)"
  by (simp add: RXtoUV_Fin drawBezierCurveOnSmithChart_def element_def Let_def
      set_source_color_def seq_Nil seq_Cons initial_world_def cairo_def
      defaultOptions_init_def rgba_def)

end
